theory Spec2Isabelle
  imports Complex_Main "HOL-Library.Stream"
begin

section \<open>Shared conventions\<close>

text \<open>
  Python floats are modelled as the real numbers: rounding, overflow and NaN are outside
  the model. Python exceptions are values of \<open>error\<close>; the \<open>site\<close> names the
  expression that raised, so that the different subscript reads can be told apart.
\<close>

datatype site =
    Linspace
  | Randint
  | InputSignal
  | Populations
  | ParentOne
  | ParentTwo
  | FitnessValues

datatype error = ValueError site | IndexError site

text \<open>
  A subscript read \<open>xs[i]\<close> of a Python sequence: a negative index counts from the end,
  and an index outside \<open>[-len, len)\<close> raises IndexError.
\<close>

definition getitem :: "'a list \<Rightarrow> int \<Rightarrow> site \<Rightarrow> error + 'a" where
  "getitem xs i st =
     (if 0 \<le> i \<and> i < int (length xs) then Inr (xs ! nat i)
      else if i < 0 \<and> - int (length xs) \<le> i then Inr (xs ! nat (int (length xs) + i))
      else Inl (IndexError st))"

text \<open>\<open>range(a, b)\<close> with step 1, and a \<open>for\<close> loop whose body may raise.\<close>

definition py_range :: "int \<Rightarrow> int \<Rightarrow> int list" where
  "py_range a b = [a..b - 1]"

fun for_each :: "('i \<Rightarrow> 's \<Rightarrow> error + 's) \<Rightarrow> 'i list \<Rightarrow> 's \<Rightarrow> error + 's" where
  "for_each body [] s = Inr s"
| "for_each body (i # rest) s =
     (case body i s of Inl e \<Rightarrow> Inl e | Inr s' \<Rightarrow> for_each body rest s')"

section \<open>Chromosome.py\<close>

record Chromosome =
  kp :: real
  ki :: real
  kd :: real
  eta :: real

section \<open>ControlSystem.py\<close>

text \<open>
  The \<open>control-system\<close> section of the configuration dictionary. The keys are
  \<open>initial-y-now\<close>, \<open>period\<close>, \<open>slicing-per-period\<close> and \<open>u-boundary\<close>; the
  two-element list \<open>u-boundary\<close> is a pair, \<open>fst\<close> for index 0 and \<open>snd\<close> for index 1.
\<close>

record Config =
  config_initial_y_now :: real
  config_period :: int
  config_slicing_per_period :: int
  config_u_boundary :: "real \<times> real"

text \<open>
  The attributes of a \<open>ControlSystem\<close> object. It copies the four genes into attributes
  of the same names, so the record extends \<open>Chromosome\<close>. The attribute \<open>self.y\<close> is
  the field \<open>y_hist\<close>.
\<close>

record ControlSystem = Chromosome +
  y_now :: real
  period :: int
  slicing_per_period :: int
  u_boundary :: "real \<times> real"
  input_signal :: "real list"
  y_fore :: real
  y_hist :: "real list"
  error_now :: real
  error_fore :: real
  error_sum :: real
  errors :: "real list"
  u_now :: real
  u_fore :: real

text \<open>
  \<open>numpy.linspace(start, stop, num)\<close> with the end point included: \<open>num\<close> evenly
  spaced samples, the single sample \<open>start\<close> for \<open>num = 1\<close>, none for \<open>num = 0\<close>, and
  ValueError for a negative \<open>num\<close>.
\<close>

definition linspace :: "real \<Rightarrow> real \<Rightarrow> int \<Rightarrow> error + real list" where
  "linspace start stop num =
     (if num < 0 then Inl (ValueError Linspace)
      else Inr (map (\<lambda>i. if num = 1 then start
                          else start + real i * ((stop - start) / real_of_int (num - 1)))
                    [0..<nat num]))"

text \<open>
  \<open>scipy.signal.square(t)\<close> with its default duty cycle 0.5: the argument is reduced
  modulo \<open>2 * pi\<close> (the remainder has the sign of the divisor) and the value is 1 where
  the remainder is below \<open>0.5 * 2 * pi\<close>, and -1 elsewhere.
\<close>

definition square :: "real \<Rightarrow> real" where
  "square t =
     (let tmod = t - 2 * pi * of_int \<lfloor>t / (2 * pi)\<rfloor>
      in if tmod < 0.5 * 2 * pi then 1 else - 1)"

definition init_input_signal :: "int \<Rightarrow> int \<Rightarrow> error + real list" where
  "init_input_signal p spp =
     (case linspace 0 1 (p * spp) of
        Inl e \<Rightarrow> Inl e
      | Inr pts \<Rightarrow> Inr (map (\<lambda>x. square (2 * pi * of_int p * x)) pts))"

definition update_u_now :: "'a ControlSystem_scheme \<Rightarrow> 'a ControlSystem_scheme" where
  "update_u_now s =
     (let u_next = kp s * error_now s + ki s * error_sum s
                   + kd s * (error_now s - error_fore s);
          u_next = (if u_next < fst (u_boundary s) then fst (u_boundary s)
                    else if u_next > snd (u_boundary s) then snd (u_boundary s)
                    else u_next)
      in s\<lparr>u_now := u_next\<rparr>)"

definition update_y_now :: "'a ControlSystem_scheme \<Rightarrow> 'a ControlSystem_scheme" where
  "update_y_now s =
     s\<lparr>y_now := 2.6 * y_now s - 1.2 * y_fore s + u_now s + 1.2 * u_fore s
                 + eta s * y_now s * sin (u_now s + u_fore s + y_now s + y_fore s)\<rparr>"

text \<open>
  \<open>__init_system_parameter\<close>, on an object whose \<open>y_now\<close>, gains, boundary and input
  signal are set. Reading \<open>input_signal[0]\<close> raises on an empty signal.
\<close>

definition init_system_parameter :: "ControlSystem \<Rightarrow> error + ControlSystem" where
  "init_system_parameter s =
     (case getitem (input_signal s) 0 InputSignal of
        Inl e \<Rightarrow> Inl e
      | Inr x0 \<Rightarrow>
          (let s = s\<lparr>y_fore := 0\<rparr>;
               s = s\<lparr>y_hist := [y_now s]\<rparr>;
               s = s\<lparr>error_now := x0 - y_now s\<rparr>;
               s = s\<lparr>error_fore := 0\<rparr>;
               s = s\<lparr>error_sum := 0\<rparr>;
               s = s\<lparr>errors := [error_now s]\<rparr>;
               s = s\<lparr>u_now := 0\<rparr>;
               s = update_u_now s
           in Inr (s\<lparr>u_fore := 0\<rparr>)))"

text \<open>
  \<open>ControlSystem.__init__\<close>. The attributes that \<open>__init_system_parameter\<close> assigns
  start at 0 or empty in the record; none of them is read before it is assigned.
\<close>

definition ControlSystem_init :: "Chromosome \<Rightarrow> Config \<Rightarrow> error + ControlSystem" where
  "ControlSystem_init chromosome config =
     (case init_input_signal (config_period config) (config_slicing_per_period config) of
        Inl e \<Rightarrow> Inl e
      | Inr sig \<Rightarrow>
          init_system_parameter
            \<lparr>kp = kp chromosome, ki = ki chromosome, kd = kd chromosome, eta = eta chromosome,
             y_now = config_initial_y_now config,
             period = config_period config,
             slicing_per_period = config_slicing_per_period config,
             u_boundary = config_u_boundary config,
             input_signal = sig,
             y_fore = 0, y_hist = [], error_now = 0, error_fore = 0, error_sum = 0,
             errors = [], u_now = 0, u_fore = 0\<rparr>)"

text \<open>The body of the loop of \<open>run\<close>, for one value of \<open>index\<close>.\<close>

definition run_iteration :: "int \<Rightarrow> ControlSystem \<Rightarrow> error + ControlSystem" where
  "run_iteration index s =
     (let s = update_y_now s
      in case getitem (input_signal s) index InputSignal of
           Inl e \<Rightarrow> Inl e
         | Inr x \<Rightarrow>
             (let s = s\<lparr>error_now := x - y_now s\<rparr>;
                  s = update_u_now s;
                  s = s\<lparr>error_sum := error_sum s + error_now s\<rparr>;
                  s = s\<lparr>errors := errors s @ [error_now s]\<rparr>;
                  s = s\<lparr>error_fore := error_now s\<rparr>;
                  s = s\<lparr>y_hist := y_hist s @ [y_now s]\<rparr>;
                  s = s\<lparr>y_fore := y_now s\<rparr>;
                  s = s\<lparr>u_fore := u_now s\<rparr>
              in Inr s))"

definition run :: "ControlSystem \<Rightarrow> error + ControlSystem" where
  "run s = for_each run_iteration (py_range 1 (period s * slicing_per_period s)) s"

definition get_fitness_value :: "ControlSystem \<Rightarrow> real" where
  "get_fitness_value s = sum_list (map abs (errors s))"

text \<open>
  One iteration of \<open>run\<close> as the specification words it: the plant law on the retained
  now/fore values, then the error against the reference signal, then the clamped PID law
  on the error sum of the earlier iterations, then the bookkeeping.
\<close>

definition iteration_result :: "int \<Rightarrow> ControlSystem \<Rightarrow> ControlSystem" where
  "iteration_result t s =
     (let Y = 2.6 * y_now s - 1.2 * y_fore s + u_now s + 1.2 * u_fore s
              + eta s * y_now s * sin (u_now s + u_fore s + y_now s + y_fore s);
          E = input_signal s ! nat t - Y;
          V = kp s * E + ki s * error_sum s + kd s * (E - error_fore s);
          U = (if V < fst (u_boundary s) then fst (u_boundary s)
               else if V > snd (u_boundary s) then snd (u_boundary s) else V)
      in s\<lparr>y_now := Y, error_now := E, u_now := U, error_sum := error_sum s + E,
            errors := errors s @ [E], error_fore := E, y_hist := y_hist s @ [Y],
            y_fore := Y, u_fore := U\<rparr>)"

section \<open>The random source\<close>

text \<open>
  The ambient generator of \<open>numpy.random\<close> is an explicit tape of draws, each a real
  number of the half-open unit interval; every call consumes the head of the tape.
  \<open>random()\<close> returns the draw, \<open>uniform(low, high)\<close> scales it, and
  \<open>randint(low, high)\<close> maps it onto the integers of \<open>[low, high)\<close> (every one of them
  is the image of some draw) and raises ValueError when that interval is empty.
\<close>

type_synonym tape = "real stream"

definition unit_interval :: "tape \<Rightarrow> bool" where
  "unit_interval g = (\<forall>r \<in> sset g. 0 \<le> r \<and> r < 1)"

definition random_sample :: "tape \<Rightarrow> real \<times> tape" where
  "random_sample g = (shd g, stl g)"

definition uniform :: "real \<Rightarrow> real \<Rightarrow> tape \<Rightarrow> real \<times> tape" where
  "uniform low high g = (low + (high - low) * shd g, stl g)"

definition randint :: "int \<Rightarrow> int \<Rightarrow> tape \<Rightarrow> error + int \<times> tape" where
  "randint low high g =
     (if low \<ge> high then Inl (ValueError Randint)
      else Inr (low + \<lfloor>shd g * of_int (high - low)\<rfloor>, stl g))"

text \<open>\<open>randint(low, high, size)\<close>: an array of \<open>size\<close> such integers, drawn in order.\<close>

fun randint_array :: "int \<Rightarrow> int \<Rightarrow> nat \<Rightarrow> tape \<Rightarrow> error + int list \<times> tape" where
  "randint_array low high 0 g =
     (if low \<ge> high then Inl (ValueError Randint) else Inr ([], g))"
| "randint_array low high (Suc n) g =
     (case randint low high g of
        Inl e \<Rightarrow> Inl e
      | Inr (i, g1) \<Rightarrow>
          (case randint_array low high n g1 of
             Inl e \<Rightarrow> Inl e
           | Inr (rest, g2) \<Rightarrow> Inr (i # rest, g2)))"

section \<open>GeneticAlgorithm.py\<close>

text \<open>
  The configuration dictionary of the whole project: the keys of its
  \<open>genetic-algorithm\<close> section and its \<open>control-system\<close> section. A boundary is a
  pair, as above.
\<close>

record ProjectConfig =
  config_PID_boundary :: "real \<times> real"
  config_eta_boundary :: "real \<times> real"
  config_population_number :: int
  config_mutation_probability :: real
  config_crossover_rate :: real
  config_control_system :: Config

text \<open>
  Chromosome objects are shared and mutated in place (\<open>__cross_over\<close> may return a parent
  itself and \<open>__mutation\<close> assigns to the attributes of its argument), so the objects
  live in a store, \<open>heap\<close>, and \<open>populations\<close> holds references: positions of the
  store. Creating a \<open>Chromosome\<close> appends a cell to the store.
\<close>

record GeneticAlgorithm =
  pid_boundary :: "real \<times> real"
  eta_boundary :: "real \<times> real"
  population_number :: int
  mutation_probability :: real
  crossover_rate :: real
  control_system_config :: Config
  populations :: "nat list"
  heap :: "Chromosome list"

definition new_Chromosome ::
  "real \<Rightarrow> real \<Rightarrow> real \<Rightarrow> real \<Rightarrow> GeneticAlgorithm \<Rightarrow> nat \<times> GeneticAlgorithm" where
  "new_Chromosome a b c d ga =
     (length (heap ga), ga\<lparr>heap := heap ga @ [\<lparr>kp = a, ki = b, kd = c, eta = d\<rparr>]\<rparr>)"

text \<open>The body of the loop of \<open>__generate_initial_population\<close>.\<close>

definition append_random_chromosome ::
  "GeneticAlgorithm \<times> tape \<Rightarrow> GeneticAlgorithm \<times> tape" where
  "append_random_chromosome = (\<lambda>(ga, g).
     (let (a, g) = uniform (fst (pid_boundary ga)) (snd (pid_boundary ga)) g;
          (b, g) = uniform (fst (pid_boundary ga)) (snd (pid_boundary ga)) g;
          (c, g) = uniform (fst (pid_boundary ga)) (snd (pid_boundary ga)) g;
          (d, g) = uniform (fst (eta_boundary ga)) (snd (eta_boundary ga)) g;
          (r, ga) = new_Chromosome a b c d ga
      in (ga\<lparr>populations := populations ga @ [r]\<rparr>, g)))"

text \<open>
  \<open>for _ in range(n)\<close> runs its body \<open>n\<close> times, and not at all for \<open>n \<le> 0\<close>.
\<close>

definition generate_initial_population ::
  "GeneticAlgorithm \<Rightarrow> tape \<Rightarrow> GeneticAlgorithm \<times> tape" where
  "generate_initial_population ga g =
     (append_random_chromosome ^^ nat (population_number ga)) (ga\<lparr>populations := []\<rparr>, g)"

definition GeneticAlgorithm_init :: "ProjectConfig \<Rightarrow> tape \<Rightarrow> GeneticAlgorithm \<times> tape" where
  "GeneticAlgorithm_init config g =
     generate_initial_population
       \<lparr>pid_boundary = config_PID_boundary config,
        eta_boundary = config_eta_boundary config,
        population_number = config_population_number config,
        mutation_probability = config_mutation_probability config,
        crossover_rate = config_crossover_rate config,
        control_system_config = config_control_system config,
        populations = [], heap = []\<rparr> g"

definition check_boundary :: "real \<Rightarrow> real \<times> real \<Rightarrow> real" where
  "check_boundary v boundary =
     (if v < fst boundary then fst boundary
      else if v > snd boundary then snd boundary
      else v)"

definition mutation ::
  "GeneticAlgorithm \<Rightarrow> nat \<Rightarrow> tape \<Rightarrow> nat \<times> GeneticAlgorithm \<times> tape" where
  "mutation ga chromosome g =
     (let (value_scale_number, g) = uniform (- 0.3) 0.3 g;
          (r1, g) = random_sample g
      in if r1 < mutation_probability ga * 0.25 then
           (let (r, g) = random_sample g;
                c = heap ga ! chromosome;
                c = c\<lparr>kp := kp c + r * value_scale_number\<rparr>;
                c = c\<lparr>kp := check_boundary (kp c) (pid_boundary ga)\<rparr>
            in (chromosome, ga\<lparr>heap := (heap ga)[chromosome := c]\<rparr>, g))
         else
           (let (r2, g) = random_sample g
            in if r2 < mutation_probability ga * 0.5 then
                 (let (r, g) = random_sample g;
                      c = heap ga ! chromosome;
                      c = c\<lparr>ki := ki c + r * value_scale_number\<rparr>;
                      c = c\<lparr>ki := check_boundary (ki c) (pid_boundary ga)\<rparr>
                  in (chromosome, ga\<lparr>heap := (heap ga)[chromosome := c]\<rparr>, g))
               else
                 (let (r3, g) = random_sample g
                  in if r3 < mutation_probability ga * 0.75 then
                       (let (r, g) = random_sample g;
                            c = heap ga ! chromosome;
                            c = c\<lparr>kd := kd c + r * value_scale_number\<rparr>;
                            c = c\<lparr>kd := check_boundary (kd c) (pid_boundary ga)\<rparr>
                        in (chromosome, ga\<lparr>heap := (heap ga)[chromosome := c]\<rparr>, g))
                     else
                       (let (r4, g) = random_sample g
                        in if r4 < mutation_probability ga then
                             (let (r, g) = random_sample g;
                                  c = heap ga ! chromosome;
                                  c = c\<lparr>eta := eta c + 4 * r * value_scale_number\<rparr>;
                                  c = c\<lparr>eta := check_boundary (eta c) (eta_boundary ga)\<rparr>
                              in (chromosome, ga\<lparr>heap := (heap ga)[chromosome := c]\<rparr>, g))
                           else (chromosome, ga, g)))))"

definition cross_over ::
  "GeneticAlgorithm \<Rightarrow> nat \<Rightarrow> nat \<Rightarrow> tape \<Rightarrow> nat \<times> GeneticAlgorithm \<times> tape" where
  "cross_over ga parent_1 parent_2 g =
     (let (r, g) = random_sample g
      in if r > crossover_rate ga then (parent_1, ga, g)
         else
           (let (random_number, g) = random_sample g;
                p1 = heap ga ! parent_1;
                p2 = heap ga ! parent_2
            in if random_number < 1 / 5 then
                 (let (child, ga) = new_Chromosome (kp p2) (ki p1) (kd p1) (eta p2) ga
                  in (child, ga, g))
               else if random_number < 2 / 5 then
                 (let (child, ga) = new_Chromosome (kp p1) (ki p2) (kd p1) (eta p2) ga
                  in (child, ga, g))
               else if random_number < 3 / 5 then
                 (let (child, ga) = new_Chromosome (kp p1) (ki p1) (kd p2) (eta p1) ga
                  in (child, ga, g))
               else if random_number < 4 / 5 then
                 (let (child, ga) = new_Chromosome (kp p2) (ki p1) (kd p2) (eta p1) ga
                  in (child, ga, g))
               else (parent_2, ga, g)))"

text \<open>The body of the loop of \<open>__select\<close>: the running \<open>selection_index\<close> is the state.\<close>

definition select_step :: "real list \<Rightarrow> int \<Rightarrow> int \<Rightarrow> error + int" where
  "select_step fitness_values index selection_index =
     (case getitem fitness_values index FitnessValues of
        Inl e \<Rightarrow> Inl e
      | Inr a \<Rightarrow>
          (case getitem fitness_values selection_index FitnessValues of
             Inl e \<Rightarrow> Inl e
           | Inr b \<Rightarrow> Inr (if a < b then index else selection_index)))"

definition select :: "real list \<Rightarrow> nat \<Rightarrow> tape \<Rightarrow> error + int \<times> tape" where
  "select fitness_values k g =
     (case randint 0 (int (length fitness_values) - 1) g of
        Inl e \<Rightarrow> Inl e
      | Inr (selection_index, g) \<Rightarrow>
          (case randint_array 0 (int (length fitness_values) - 1) k g of
             Inl e \<Rightarrow> Inl e
           | Inr (indices, g) \<Rightarrow>
               (case for_each (select_step fitness_values) indices selection_index of
                  Inl e \<Rightarrow> Inl e
                | Inr selection_index \<Rightarrow> Inr (selection_index, g))))"

definition calculate_fitness :: "GeneticAlgorithm \<Rightarrow> int \<Rightarrow> error + real" where
  "calculate_fitness ga index =
     (case getitem (populations ga) index Populations of
        Inl e \<Rightarrow> Inl e
      | Inr r \<Rightarrow>
          (case ControlSystem_init (heap ga ! r) (control_system_config ga) of
             Inl e \<Rightarrow> Inl e
           | Inr control_system \<Rightarrow>
               (case run control_system of
                  Inl e \<Rightarrow> Inl e
                | Inr control_system \<Rightarrow> Inr (get_fitness_value control_system))))"

text \<open>The bodies of the two loops of \<open>produce_next_generation\<close>.\<close>

definition append_fitness :: "GeneticAlgorithm \<Rightarrow> int \<Rightarrow> real list \<Rightarrow> error + real list" where
  "append_fitness ga index fitness_values =
     (case calculate_fitness ga index of
        Inl e \<Rightarrow> Inl e
      | Inr v \<Rightarrow> Inr (fitness_values @ [v]))"

definition append_child ::
  "real list \<Rightarrow> int \<Rightarrow> GeneticAlgorithm \<times> nat list \<times> tape
     \<Rightarrow> error + GeneticAlgorithm \<times> nat list \<times> tape" where
  "append_child fitness_values index = (\<lambda>(ga, new_populations, g).
     (case select fitness_values 2 g of
        Inl e \<Rightarrow> Inl e
      | Inr (parent_index, g) \<Rightarrow>
          (case getitem (populations ga) parent_index ParentOne of
             Inl e \<Rightarrow> Inl e
           | Inr parent_1 \<Rightarrow>
               (case getitem (populations ga) (parent_index + 1) ParentTwo of
                  Inl e \<Rightarrow> Inl e
                | Inr parent_2 \<Rightarrow>
                    (let (new_population, ga, g) = cross_over ga parent_1 parent_2 g;
                         (new_population, ga, g) = mutation ga new_population g
                     in Inr (ga, new_populations @ [new_population], g))))))"

definition produce_next_generation ::
  "GeneticAlgorithm \<Rightarrow> tape \<Rightarrow> error + GeneticAlgorithm \<times> tape" where
  "produce_next_generation ga g =
     (case for_each (append_fitness ga) (py_range 0 (population_number ga)) [] of
        Inl e \<Rightarrow> Inl e
      | Inr fitness_values \<Rightarrow>
          (case for_each (append_child fitness_values) (py_range 0 (population_number ga))
                  (ga, [], g) of
             Inl e \<Rightarrow> Inl e
           | Inr (ga, new_populations, g) \<Rightarrow>
               Inr (ga\<lparr>populations := new_populations\<rparr>, g)))"

text \<open>
  The states a caller can reach from a configuration: the freshly constructed object, and
  the result of every call of \<open>produce_next_generation\<close> that returns. The random
  source may have been used by others between two calls, so each call takes any tape of
  unit-interval draws. A call that raises adds no state: it raises in the fitness loop,
  which only reads, or in the tournament of the first child, before any chromosome is
  created or assigned to, and so leaves the object as it was.
\<close>

inductive reachable :: "ProjectConfig \<Rightarrow> GeneticAlgorithm \<Rightarrow> bool" where
  constructed: "unit_interval g \<Longrightarrow> reachable config (fst (GeneticAlgorithm_init config g))"
| evolved: "reachable config ga \<Longrightarrow> unit_interval g \<Longrightarrow>
            produce_next_generation ga g = Inr (ga', g') \<Longrightarrow> reachable config ga'"

text \<open>A chromosome whose four genes lie inside the boundaries of the algorithm.\<close>

definition within_boundary :: "GeneticAlgorithm \<Rightarrow> Chromosome \<Rightarrow> bool" where
  "within_boundary ga c \<longleftrightarrow>
     fst (pid_boundary ga) \<le> kp c \<and> kp c \<le> snd (pid_boundary ga) \<and>
     fst (pid_boundary ga) \<le> ki c \<and> ki c \<le> snd (pid_boundary ga) \<and>
     fst (pid_boundary ga) \<le> kd c \<and> kd c \<le> snd (pid_boundary ga) \<and>
     fst (eta_boundary ga) \<le> eta c \<and> eta c \<le> snd (eta_boundary ga)"

section \<open>Example inputs\<close>

text \<open>
  The scenario of the specification: one period sampled four times, unit gain on the
  proportional term only, no nonlinear term. \<open>scenario_state\<close> is the simulator of
  that scenario with the given values of the attributes that change during a run.
  \<open>example_project\<close> is a whole configuration around it, and \<open>example_parents\<close>
  an algorithm object with two distinguishable chromosomes.
\<close>

definition scenario_chromosome :: Chromosome where
  "scenario_chromosome = \<lparr>kp = 1, ki = 0, kd = 0, eta = 0\<rparr>"

definition scenario_config :: Config where
  "scenario_config = \<lparr>config_initial_y_now = 0, config_period = 1,
     config_slicing_per_period = 4, config_u_boundary = (- 1, 1)\<rparr>"

definition scenario_state ::
  "real \<Rightarrow> real \<Rightarrow> real list \<Rightarrow> real \<Rightarrow> real \<Rightarrow> real \<Rightarrow> real list \<Rightarrow> real \<Rightarrow> real
     \<Rightarrow> ControlSystem" where
  "scenario_state yn yf yh en ef es el un uf =
     \<lparr>kp = 1, ki = 0, kd = 0, eta = 0, y_now = yn, period = 1, slicing_per_period = 4,
      u_boundary = (- 1, 1), input_signal = [1, 1, - 1, 1], y_fore = yf, y_hist = yh,
      error_now = en, error_fore = ef, error_sum = es,
      errors = el, u_now = un, u_fore = uf\<rparr>"

definition example_project :: "int \<Rightarrow> ProjectConfig" where
  "example_project n = \<lparr>config_PID_boundary = (0, 10), config_eta_boundary = (0, 2),
     config_population_number = n, config_mutation_probability = 1,
     config_crossover_rate = 0.9, config_control_system = scenario_config\<rparr>"

definition example_parents :: "real \<Rightarrow> GeneticAlgorithm" where
  "example_parents rate = \<lparr>pid_boundary = (0, 10), eta_boundary = (0, 2),
     population_number = 2, mutation_probability = 1, crossover_rate = rate,
     control_system_config = scenario_config,
     populations = [0, 1],
     heap = [\<lparr>kp = 1, ki = 1, kd = 1, eta = 1\<rparr>, \<lparr>kp = 2, ki = 2, kd = 2, eta = 2\<rparr>]\<rparr>"

section \<open>Invariants\<close>

text \<open>Predicates of the proofs: invariants of the object and of its loops.\<close>

definition ordered_boundaries :: "GeneticAlgorithm \<Rightarrow> bool" where
  "ordered_boundaries ga \<longleftrightarrow>
     fst (pid_boundary ga) \<le> snd (pid_boundary ga) \<and>
     fst (eta_boundary ga) \<le> snd (eta_boundary ga)"

definition well_formed :: "GeneticAlgorithm \<Rightarrow> bool" where
  "well_formed ga \<longleftrightarrow>
     length (populations ga) = nat (population_number ga) \<and>
     (\<forall>r \<in> set (populations ga). r < length (heap ga))"

definition heap_within :: "GeneticAlgorithm \<Rightarrow> bool" where
  "heap_within ga \<longleftrightarrow> (\<forall>c \<in> set (heap ga). within_boundary ga c)"

definition configured :: "ProjectConfig \<Rightarrow> GeneticAlgorithm \<Rightarrow> bool" where
  "configured config ga \<longleftrightarrow>
     pid_boundary ga = config_PID_boundary config \<and>
     eta_boundary ga = config_eta_boundary config \<and>
     population_number ga = config_population_number config \<and>
     mutation_probability ga = config_mutation_probability config \<and>
     crossover_rate ga = config_crossover_rate config \<and>
     control_system_config ga = config_control_system config"

definition child_loop_inv ::
  "GeneticAlgorithm \<Rightarrow> GeneticAlgorithm \<times> nat list \<times> tape \<Rightarrow> bool" where
  "child_loop_inv ga = (\<lambda>(ga1, new_populations, g1).
     ga1 = ga\<lparr>heap := heap ga1\<rparr> \<and>
     length (heap ga) \<le> length (heap ga1) \<and>
     (\<forall>r \<in> set new_populations. r < length (heap ga1)) \<and>
     unit_interval g1 \<and>
     (ordered_boundaries ga \<and> heap_within ga \<longrightarrow> heap_within ga1))"

section \<open>Properties of the simulator\<close>

lemma getitem_in_range:
  "0 \<le> i \<Longrightarrow> i < int (length xs) \<Longrightarrow> getitem xs i st = Inr (xs ! nat i)"
  by (simp add: getitem_def)

lemma for_each_append:
  "for_each body (xs @ zs) s =
     (case for_each body xs s of Inl e \<Rightarrow> Inl e | Inr s' \<Rightarrow> for_each body zs s')"
  by (induction xs arbitrary: s) (auto split: sum.splits)

lemma linspace_length:
  "linspace a b n = Inr pts \<Longrightarrow> 0 \<le> n \<and> length pts = nat n"
  by (auto simp: linspace_def split: if_splits)

lemma init_input_signal_length:
  "init_input_signal p q = Inr sig \<Longrightarrow> 0 \<le> p * q \<and> length sig = nat (p * q)"
  by (auto simp: init_input_signal_def split: sum.splits dest: linspace_length)

lemma init_system_parameter_fields:
  assumes "init_system_parameter s = Inr s'"
  shows "input_signal s' = input_signal s" "period s' = period s"
    "slicing_per_period s' = slicing_per_period s" "input_signal s \<noteq> []"
  using assms
  by (auto simp: init_system_parameter_def update_u_now_def Let_def getitem_def
           split: sum.splits if_splits)

lemma ControlSystem_init_fields:
  assumes "ControlSystem_init c cfg = Inr s0"
  shows "period s0 = config_period cfg"
    and "slicing_per_period s0 = config_slicing_per_period cfg"
    and "length (input_signal s0) = nat (config_period cfg * config_slicing_per_period cfg)"
    and "1 \<le> config_period cfg * config_slicing_per_period cfg"
proof -
  from assms obtain sig s where
    sig: "init_input_signal (config_period cfg) (config_slicing_per_period cfg) = Inr sig"
    and s: "init_system_parameter s = Inr s0" "input_signal s = sig"
       "period s = config_period cfg" "slicing_per_period s = config_slicing_per_period cfg"
    by (auto simp: ControlSystem_init_def split: sum.splits)
  note len = init_input_signal_length[OF sig]
  note fld = init_system_parameter_fields[OF s(1)]
  show "period s0 = config_period cfg" using fld(2) s(3) by simp
  show "slicing_per_period s0 = config_slicing_per_period cfg" using fld(3) s(4) by simp
  show "length (input_signal s0) = nat (config_period cfg * config_slicing_per_period cfg)"
    using fld(1) s(2) len by simp
  have "0 < length sig" using fld(4) s(2) by simp
  then show "1 \<le> config_period cfg * config_slicing_per_period cfg"
    using len by linarith
qed

lemma run_iteration_in_range:
  assumes "0 \<le> t" "t < int (length (input_signal s))"
  shows "run_iteration t s = Inr (iteration_result t s)"
  using assms
  by (simp add: run_iteration_def iteration_result_def update_y_now_def update_u_now_def
        Let_def getitem_in_range)

lemma iteration_result_fixed:
  "input_signal (iteration_result t s) = input_signal s"
  "period (iteration_result t s) = period s"
  "slicing_per_period (iteration_result t s) = slicing_per_period s"
  "length (errors (iteration_result t s)) = Suc (length (errors s))"
  "length (y_hist (iteration_result t s)) = Suc (length (y_hist s))"
  by (simp_all add: iteration_result_def Let_def)

lemma for_each_run_iteration:
  assumes "0 \<le> a" "b < int (length (input_signal s))"
  shows "\<exists>s'. for_each run_iteration [a..b] s = Inr s' \<and> input_signal s' = input_signal s
            \<and> period s' = period s \<and> slicing_per_period s' = slicing_per_period s"
  using assms
proof (induction "nat (b + 1 - a)" arbitrary: a s)
  case 0
  then show ?case by simp
next
  case (Suc n)
  then have le: "a \<le> b" by linarith
  have step: "run_iteration a s = Inr (iteration_result a s)"
    using Suc.prems le by (intro run_iteration_in_range) auto
  have "n = nat (b + 1 - (a + 1))" using Suc.hyps(2) by linarith
  from Suc.hyps(1)[OF this, of "iteration_result a s"] Suc.prems
  obtain s' where "for_each run_iteration [a + 1..b] (iteration_result a s) = Inr s'"
    "input_signal s' = input_signal s" "period s' = period s"
    "slicing_per_period s' = slicing_per_period s"
    by (auto simp: iteration_result_fixed)
  then show ?case using le step by (simp add: upto_rec1[of a b])
qed

lemma py_range_split:
  assumes "a \<le> t" "t < b"
  shows "py_range a b = py_range a t @ t # py_range (t + 1) b"
  using assms upto_split3[of a t "b - 1"] by (simp add: py_range_def)

lemma ControlSystem_init_total:
  assumes "1 \<le> config_period cfg * config_slicing_per_period cfg"
  shows "\<exists>s0. ControlSystem_init c cfg = Inr s0"
proof -
  obtain sig where sig:
    "init_input_signal (config_period cfg) (config_slicing_per_period cfg) = Inr sig"
    using assms by (simp add: init_input_signal_def linspace_def)
  from init_input_signal_length[OF sig] assms have "0 < int (length sig)" by simp
  then show ?thesis
    by (simp add: ControlSystem_init_def sig init_system_parameter_def getitem_in_range Let_def)
qed

lemma ControlSystem_init_fails:
  assumes "config_period cfg * config_slicing_per_period cfg \<le> 0"
  shows "ControlSystem_init c cfg =
     Inl (if config_period cfg * config_slicing_per_period cfg < 0 then ValueError Linspace
          else IndexError InputSignal)"
proof (cases "config_period cfg * config_slicing_per_period cfg < 0")
  case True
  then show ?thesis
    by (simp add: ControlSystem_init_def init_input_signal_def linspace_def)
next
  case False
  with assms have "config_period cfg * config_slicing_per_period cfg = 0" by simp
  then show ?thesis
    by (simp add: ControlSystem_init_def init_input_signal_def linspace_def
          init_system_parameter_def getitem_def)
qed

lemma run_total:
  assumes "ControlSystem_init c cfg = Inr s0"
  shows "\<exists>s. run s0 = Inr s"
proof -
  note f = ControlSystem_init_fields[OF assms]
  have "period s0 * slicing_per_period s0 - 1 < int (length (input_signal s0))"
    using f by simp
  from for_each_run_iteration[of 1 _ s0, OF _ this] show ?thesis
    by (auto simp: run_def py_range_def)
qed

lemma run_iteration_order_from:
  assumes "ControlSystem_init chromosome config = Inr s0"
    and "N = config_period config * config_slicing_per_period config"
    and "2 \<le> N" and "1 \<le> t" and "t \<le> N - 1"
  shows "\<exists>s. for_each run_iteration (py_range 1 t) s0 = Inr s \<and>
           input_signal s = input_signal s0 \<and>
           run_iteration t s = Inr (iteration_result t s) \<and>
           run s0 = for_each run_iteration (py_range (t + 1) N) (iteration_result t s)"
proof -
  note f = ControlSystem_init_fields[OF assms(1)]
  have len: "length (input_signal s0) = nat N" using f(3) assms(2) by simp
  have lenN: "int (length (input_signal s0)) = N" using len assms(3) by simp
  have "t - 1 < int (length (input_signal s0))" using lenN assms(5) by simp
  from for_each_run_iteration[of 1 "t - 1" s0, OF _ this]
  obtain s where s: "for_each run_iteration (py_range 1 t) s0 = Inr s"
    "input_signal s = input_signal s0"
    by (auto simp: py_range_def)
  have "t < int (length (input_signal s))" using lenN s(2) assms(5) by simp
  then have it: "run_iteration t s = Inr (iteration_result t s)"
    using assms(4) by (intro run_iteration_in_range) auto
  have "run s0 = for_each run_iteration (py_range 1 N) s0"
    using f(1,2) assms(2) by (simp add: run_def)
  also have "py_range 1 N = py_range 1 t @ t # py_range (t + 1) N"
    using assms by (intro py_range_split) auto
  finally have "run s0 = for_each run_iteration (py_range (t + 1) N) (iteration_result t s)"
    using s(1) it by (simp add: for_each_append)
  with s it show ?thesis by blast
qed

text \<open>
  Claim C1. For every chromosome and every configuration with
  \<open>N = period * slicing_per_period \<ge> 2\<close> the simulator is constructed, and every
  iteration \<open>t\<close> of \<open>run\<close> with \<open>1 \<le> t \<le> N - 1\<close> is reached, in a state \<open>s\<close>.
  The iteration first computes the new output \<open>Y\<close> by the plant law from the retained
  \<open>y_now\<close>, \<open>y_fore\<close>, \<open>u_now\<close>, \<open>u_fore\<close> of \<open>s\<close>, then the error \<open>E\<close> of
  \<open>input_signal[t]\<close> against \<open>Y\<close>, then the clamped control \<open>U\<close> from \<open>E\<close>, the
  error sum of \<open>s\<close> (which does not contain \<open>E\<close>) and the previous error of \<open>s\<close>; only
  then it adds \<open>E\<close> to the error sum, appends \<open>E\<close> and \<open>Y\<close> to the histories and
  moves \<open>E\<close>, \<open>Y\<close>, \<open>U\<close> into the fore slots. The run continues from that state
  with iteration \<open>t + 1\<close>.
\<close>

theorem run_iteration_order:
  assumes "N = config_period config * config_slicing_per_period config"
    and "2 \<le> N" and "1 \<le> t" and "t \<le> N - 1"
  shows "\<exists>s0 s. ControlSystem_init chromosome config = Inr s0 \<and>
     for_each run_iteration (py_range 1 t) s0 = Inr s \<and>
     (let Y = 2.6 * y_now s - 1.2 * y_fore s + u_now s + 1.2 * u_fore s
              + eta s * y_now s * sin (u_now s + u_fore s + y_now s + y_fore s);
          E = input_signal s0 ! nat t - Y;
          V = kp s * E + ki s * error_sum s + kd s * (E - error_fore s);
          U = (if V < fst (u_boundary s) then fst (u_boundary s)
               else if V > snd (u_boundary s) then snd (u_boundary s) else V);
          s' = s\<lparr>y_now := Y, error_now := E, u_now := U, error_sum := error_sum s + E,
                 errors := errors s @ [E], error_fore := E, y_hist := y_hist s @ [Y],
                 y_fore := Y, u_fore := U\<rparr>
      in run_iteration t s = Inr s' \<and>
         run s0 = for_each run_iteration (py_range (t + 1) N) s')"
proof -
  have "1 \<le> config_period config * config_slicing_per_period config"
    using assms(1,2) by simp
  from ControlSystem_init_total[OF this] obtain s0 where
    s0: "ControlSystem_init chromosome config = Inr s0" by blast
  from run_iteration_order_from[OF s0 assms] obtain s where
    s: "for_each run_iteration (py_range 1 t) s0 = Inr s" "input_signal s = input_signal s0"
      "run_iteration t s = Inr (iteration_result t s)"
      "run s0 = for_each run_iteration (py_range (t + 1) N) (iteration_result t s)"
    by blast
  show ?thesis
    using s0 s(1,3,4) unfolding iteration_result_def Let_def s(2)
    by blast
qed

subsection \<open>The scenario of the specification, step by step\<close>

lemma scenario_init:
  "ControlSystem_init scenario_chromosome scenario_config
   = Inr (scenario_state 0 0 [0] 1 0 0 [1] 1 0)"
  by (simp add: scenario_chromosome_def scenario_config_def scenario_state_def
       ControlSystem_init_def init_input_signal_def linspace_def upt_conv_Cons
       square_def init_system_parameter_def getitem_def update_u_now_def Let_def)

lemma scenario_iteration_1:
  "run_iteration 1 (scenario_state 0 0 [0] 1 0 0 [1] 1 0)
   = Inr (scenario_state 1 1 [0, 1] 0 0 0 [1, 0] 0 0)"
  by (simp add: scenario_state_def run_iteration_def update_y_now_def
        update_u_now_def getitem_def Let_def)

lemma scenario_iteration_2:
  "run_iteration 2 (scenario_state 1 1 [0, 1] 0 0 0 [1, 0] 0 0)
   = Inr (scenario_state (7 / 5) (7 / 5) [0, 1, 7 / 5] (- (12 / 5)) (- (12 / 5)) (- (12 / 5))
            [1, 0, - (12 / 5)] (- 1) (- 1))"
  by (simp add: scenario_state_def run_iteration_def update_y_now_def
        update_u_now_def getitem_def Let_def)

lemma scenario_iteration_3:
  "run_iteration 3 (scenario_state (7 / 5) (7 / 5) [0, 1, 7 / 5] (- (12 / 5)) (- (12 / 5)) (- (12 / 5))
            [1, 0, - (12 / 5)] (- 1) (- 1))
   = Inr (scenario_state (- (6 / 25)) (- (6 / 25)) [0, 1, 7 / 5, - (6 / 25)] (31 / 25) (31 / 25)
            (- (29 / 25)) [1, 0, - (12 / 5), 31 / 25] 1 1)"
  by (simp add: scenario_state_def run_iteration_def update_y_now_def
        update_u_now_def getitem_def Let_def)

lemma scenario_run:
  "run (scenario_state 0 0 [0] 1 0 0 [1] 1 0)
   = Inr (scenario_state (- (6 / 25)) (- (6 / 25)) [0, 1, 7 / 5, - (6 / 25)] (31 / 25) (31 / 25)
            (- (29 / 25)) [1, 0, - (12 / 5), 31 / 25] 1 1)"
proof -
  have "period (scenario_state 0 0 [0] 1 0 0 [1] 1 0)
          * slicing_per_period (scenario_state 0 0 [0] 1 0 0 [1] 1 0) = 4"
    by (simp add: scenario_state_def)
  moreover have "py_range 1 4 = [1, 2, 3]" by (simp add: py_range_def upto_rec1)
  ultimately show ?thesis
    by (simp add: run_def scenario_iteration_1 scenario_iteration_2 scenario_iteration_3)
qed

theorem run_iteration_order_witness:
  "(4 :: int) = config_period scenario_config * config_slicing_per_period scenario_config \<and>
   (2 :: int) \<le> 4 \<and> (1 :: int) \<le> 2 \<and> (2 :: int) \<le> 4 - 1 \<and>
   ControlSystem_init scenario_chromosome scenario_config
     = Inr (scenario_state 0 0 [0] 1 0 0 [1] 1 0) \<and>
   for_each run_iteration (py_range 1 2) (scenario_state 0 0 [0] 1 0 0 [1] 1 0)
     = Inr (scenario_state 1 1 [0, 1] 0 0 0 [1, 0] 0 0) \<and>
   run_iteration 2 (scenario_state 1 1 [0, 1] 0 0 0 [1, 0] 0 0)
     = Inr (scenario_state (7 / 5) (7 / 5) [0, 1, 7 / 5] (- (12 / 5)) (- (12 / 5)) (- (12 / 5))
            [1, 0, - (12 / 5)] (- 1) (- 1)) \<and>
   run (scenario_state 0 0 [0] 1 0 0 [1] 1 0)
     = for_each run_iteration (py_range (2 + 1) 4)
         (scenario_state (7 / 5) (7 / 5) [0, 1, 7 / 5] (- (12 / 5)) (- (12 / 5)) (- (12 / 5))
            [1, 0, - (12 / 5)] (- 1) (- 1))"
proof -
  have n: "(4 :: int) = config_period scenario_config * config_slicing_per_period scenario_config"
    by (simp add: scenario_config_def)
  have p: "for_each run_iteration (py_range 1 2) (scenario_state 0 0 [0] 1 0 0 [1] 1 0)
     = Inr (scenario_state 1 1 [0, 1] 0 0 0 [1, 0] 0 0)"
    by (simp add: py_range_def upto_rec1 scenario_iteration_1)
  from run_iteration_order[OF n, of 2 scenario_chromosome]
  obtain s where s: "for_each run_iteration (py_range 1 2) (scenario_state 0 0 [0] 1 0 0 [1] 1 0)
       = Inr s"
    and rest: "(let Y = 2.6 * y_now s - 1.2 * y_fore s + u_now s + 1.2 * u_fore s
              + eta s * y_now s * sin (u_now s + u_fore s + y_now s + y_fore s);
          E = input_signal (scenario_state 0 0 [0] 1 0 0 [1] 1 0) ! nat 2 - Y;
          V = kp s * E + ki s * error_sum s + kd s * (E - error_fore s);
          U = (if V < fst (u_boundary s) then fst (u_boundary s)
               else if V > snd (u_boundary s) then snd (u_boundary s) else V);
          s' = s\<lparr>y_now := Y, error_now := E, u_now := U, error_sum := error_sum s + E,
                 errors := errors s @ [E], error_fore := E, y_hist := y_hist s @ [Y],
                 y_fore := Y, u_fore := U\<rparr>
      in run_iteration 2 s = Inr s' \<and>
         run (scenario_state 0 0 [0] 1 0 0 [1] 1 0)
           = for_each run_iteration (py_range (2 + 1) 4) s')"
    by (auto simp: scenario_init)
  from s p have eq: "s = scenario_state 1 1 [0, 1] 0 0 0 [1, 0] 0 0" by simp
  have "run (scenario_state 0 0 [0] 1 0 0 [1] 1 0)
     = for_each run_iteration (py_range (2 + 1) 4)
         (scenario_state (7 / 5) (7 / 5) [0, 1, 7 / 5] (- (12 / 5)) (- (12 / 5)) (- (12 / 5))
            [1, 0, - (12 / 5)] (- 1) (- 1))"
    using rest unfolding eq Let_def scenario_iteration_2 by simp
  with scenario_init n p scenario_iteration_2 show ?thesis by simp
qed

text \<open>
  Claim C6, as amended. For the configuration with period 1, four samples per period,
  initial output 0 and control boundary \<open>[-1, 1]\<close>, and the chromosome
  \<open>(kp, ki, kd, eta) = (1, 0, 0, 0)\<close>, the reference signal is one square-wave period
  sampled at four points with the values \<open>(1, 1, -1, 1)\<close>: the samples are at 0, 1/3,
  2/3 and 1 of the period, and the last one falls on the start of the next period, where
  the wave is high again. The run produces exactly four error values, and the fitness is
  deterministic: the scenario has one fitness value.
\<close>

theorem square_wave_scenario:
  "init_input_signal (config_period scenario_config) (config_slicing_per_period scenario_config)
     = Inr [1, 1, - 1, 1] \<and>
   (\<exists>s0 s. ControlSystem_init scenario_chromosome scenario_config = Inr s0 \<and>
      input_signal s0 = [1, 1, - 1, 1] \<and>
      run s0 = Inr s \<and>
      length (errors s) = 4) \<and>
   (\<exists>!fitness. \<exists>s0 s. ControlSystem_init scenario_chromosome scenario_config = Inr s0 \<and>
      run s0 = Inr s \<and>
      get_fitness_value s = fitness)"
proof -
  have sig: "init_input_signal (config_period scenario_config)
          (config_slicing_per_period scenario_config) = Inr [1, 1, - 1, 1]"
    by (simp add: scenario_config_def init_input_signal_def linspace_def upt_conv_Cons
          square_def)
  have inp: "input_signal (scenario_state 0 0 [0] 1 0 0 [1] 1 0) = [1, 1, - 1, 1]"
    by (simp add: scenario_state_def)
  have len:
    "length (errors (scenario_state (- (6 / 25)) (- (6 / 25)) [0, 1, 7 / 5, - (6 / 25)]
       (31 / 25) (31 / 25) (- (29 / 25)) [1, 0, - (12 / 5), 31 / 25] 1 1)) = 4"
    by (simp add: scenario_state_def)
  have four: "\<exists>s0 s. ControlSystem_init scenario_chromosome scenario_config = Inr s0 \<and>
      input_signal s0 = [1, 1, - 1, 1] \<and> run s0 = Inr s \<and> length (errors s) = 4"
    using scenario_init scenario_run inp len by blast
  have one: "\<exists>!fitness. \<exists>s0 s. ControlSystem_init scenario_chromosome scenario_config = Inr s0 \<and>
      run s0 = Inr s \<and> get_fitness_value s = fitness"
  proof (rule ex_ex1I)
    show "\<exists>fitness s0 s. ControlSystem_init scenario_chromosome scenario_config = Inr s0 \<and>
      run s0 = Inr s \<and> get_fitness_value s = fitness"
      using scenario_init scenario_run by blast
  next
    fix f1 f2
    assume "\<exists>s0 s. ControlSystem_init scenario_chromosome scenario_config = Inr s0 \<and>
      run s0 = Inr s \<and> get_fitness_value s = f1"
      and "\<exists>s0 s. ControlSystem_init scenario_chromosome scenario_config = Inr s0 \<and>
      run s0 = Inr s \<and> get_fitness_value s = f2"
    then show "f1 = f2" by auto
  qed
  from sig four one show ?thesis by blast
qed

text \<open>
  The claim as stated gives the reference signal \<open>(1, 1, -1, -1)\<close>; the signal of the
  scenario differs from it in the last sample.
\<close>

theorem square_wave_scenario_counterexample:
  "init_input_signal (config_period scenario_config) (config_slicing_per_period scenario_config)
     = Inr [1, 1, - 1, 1] \<and>
   init_input_signal (config_period scenario_config) (config_slicing_per_period scenario_config)
     \<noteq> Inr [1, 1, - 1, - 1]"
  by (simp add: scenario_config_def init_input_signal_def linspace_def upt_conv_Cons square_def)

lemma degenerate_run_cases:
  assumes "config_period config * config_slicing_per_period config < 2"
  shows "if config_period config * config_slicing_per_period config = 1
         then \<exists>s0. ControlSystem_init chromosome config = Inr s0 \<and>
                input_signal s0 = [1] \<and>
                py_range 1 (period s0 * slicing_per_period s0) = [] \<and>
                run s0 = Inr s0 \<and>
                errors s0 = [input_signal s0 ! 0 - config_initial_y_now config] \<and>
                get_fitness_value s0 = \<bar>input_signal s0 ! 0 - config_initial_y_now config\<bar>
         else \<exists>e. ControlSystem_init chromosome config = Inl e"
proof (cases "config_period config * config_slicing_per_period config = 1")
  case True
  then have sig: "init_input_signal (config_period config) (config_slicing_per_period config)
                  = Inr [1]"
    by (simp add: init_input_signal_def linspace_def square_def)
  obtain s0 where s0: "ControlSystem_init chromosome config = Inr s0"
    by (simp add: ControlSystem_init_def sig init_system_parameter_def getitem_def Let_def)
  have fields: "input_signal s0 = [1]" "errors s0 = [1 - config_initial_y_now config]"
     "period s0 * slicing_per_period s0 = 1"
    using s0 True
    by (auto simp: ControlSystem_init_def sig init_system_parameter_def getitem_def Let_def
          update_u_now_def)
  have "run s0 = Inr s0" by (simp add: run_def fields py_range_def)
  with s0 fields True show ?thesis
    by (simp add: get_fitness_value_def py_range_def)
next
  case False
  with assms have le: "config_period config * config_slicing_per_period config \<le> 0" by simp
  have "\<exists>e. ControlSystem_init chromosome config = Inl e"
  proof (cases "config_period config * config_slicing_per_period config < 0")
    case True
    then show ?thesis
      by (simp add: ControlSystem_init_def init_input_signal_def linspace_def)
  next
    case neg: False
    with le have "config_period config * config_slicing_per_period config = 0" by simp
    then show ?thesis
      by (simp add: ControlSystem_init_def init_input_signal_def linspace_def
            init_system_parameter_def getitem_def)
  qed
  with False show ?thesis by simp
qed

text \<open>
  Claim C8. For every chromosome and every configuration (\<open>period\<close> and
  \<open>slicing-per-period\<close> positive integers, as the configuration defines them) with
  \<open>period * slicing_per_period < 2\<close>, the simulator is constructed, the loop of \<open>run\<close>
  has an empty range and performs no iteration, so \<open>run\<close> leaves the state as it is, the
  error history holds only the initial error \<open>input_signal[0] - initial_output\<close>, and
  \<open>get_fitness_value\<close> returns its absolute value.
\<close>

theorem degenerate_run:
  assumes "1 \<le> config_period config" and "1 \<le> config_slicing_per_period config"
    and "config_period config * config_slicing_per_period config < 2"
  shows "\<exists>s0. ControlSystem_init chromosome config = Inr s0 \<and>
           py_range 1 (period s0 * slicing_per_period s0) = [] \<and>
           run s0 = Inr s0 \<and>
           errors s0 = [input_signal s0 ! 0 - config_initial_y_now config] \<and>
           get_fitness_value s0 = \<bar>input_signal s0 ! 0 - config_initial_y_now config\<bar>"
proof -
  have "1 * 1 \<le> config_period config * config_slicing_per_period config"
    using assms(1,2) by (intro mult_mono) auto
  with assms(3) have one: "config_period config * config_slicing_per_period config = 1"
    by simp
  from degenerate_run_cases[OF assms(3), of chromosome] one show ?thesis
    by auto
qed

theorem degenerate_run_witness:
  "1 \<le> config_period (scenario_config\<lparr>config_slicing_per_period := 1\<rparr>) \<and>
   1 \<le> config_slicing_per_period (scenario_config\<lparr>config_slicing_per_period := 1\<rparr>) \<and>
   config_period (scenario_config\<lparr>config_slicing_per_period := 1\<rparr>)
     * config_slicing_per_period (scenario_config\<lparr>config_slicing_per_period := 1\<rparr>) < 2 \<and>
   (\<exists>s0. ControlSystem_init scenario_chromosome
            (scenario_config\<lparr>config_slicing_per_period := 1\<rparr>) = Inr s0 \<and>
      run s0 = Inr s0 \<and>
      errors s0 = [input_signal s0 ! 0 - 0] \<and>
      get_fitness_value s0 = \<bar>input_signal s0 ! 0 - 0\<bar>)"
proof -
  have p: "1 \<le> config_period (scenario_config\<lparr>config_slicing_per_period := 1\<rparr>)"
    and q: "1 \<le> config_slicing_per_period (scenario_config\<lparr>config_slicing_per_period := 1\<rparr>)"
    and h: "config_period (scenario_config\<lparr>config_slicing_per_period := 1\<rparr>)
     * config_slicing_per_period (scenario_config\<lparr>config_slicing_per_period := 1\<rparr>) < 2"
    by (simp_all add: scenario_config_def)
  have y: "config_initial_y_now (scenario_config\<lparr>config_slicing_per_period := 1\<rparr>) = 0"
    by (simp add: scenario_config_def)
  from degenerate_run[OF p q h, of scenario_chromosome] p q h show ?thesis
    unfolding y by blast
qed

section \<open>Random draws and tournament selection\<close>

lemma unit_interval_shd: "unit_interval g \<Longrightarrow> 0 \<le> shd g \<and> shd g < 1"
  by (simp add: unit_interval_def shd_sset)

lemma unit_interval_stl: "unit_interval g \<Longrightarrow> unit_interval (stl g)"
  by (auto simp: unit_interval_def dest: stl_sset)

lemma unit_interval_sconst: "unit_interval (sconst r) \<longleftrightarrow> 0 \<le> r \<and> r < 1"
  by (simp add: unit_interval_def)

lemma unit_interval_SCons:
  "unit_interval (r ## g) \<longleftrightarrow> 0 \<le> r \<and> r < 1 \<and> unit_interval g"
  by (auto simp: unit_interval_def)

lemma scaled_draw_range:
  fixes r :: real and d :: int
  assumes "0 \<le> r" "r < 1" "0 < d"
  shows "0 \<le> \<lfloor>r * of_int d\<rfloor> \<and> \<lfloor>r * of_int d\<rfloor> < d"
proof -
  have "0 \<le> r * of_int d" using assms by simp
  moreover have "r * of_int d < of_int d" using assms by simp
  ultimately show ?thesis by (simp add: floor_less_iff)
qed

lemma randint_range:
  assumes "unit_interval g" "low < high"
  shows "\<exists>i. randint low high g = Inr (i, stl g) \<and> low \<le> i \<and> i < high"
  using scaled_draw_range[of "shd g" "high - low"] unit_interval_shd[OF assms(1)] assms(2)
  by (simp add: randint_def)

lemma randint_array_range:
  assumes "unit_interval g" "low < high"
  shows "\<exists>ds g'. randint_array low high k g = Inr (ds, g') \<and> length ds = k \<and>
           (\<forall>i \<in> set ds. low \<le> i \<and> i < high) \<and> unit_interval g'"
  using assms(1)
proof (induction k arbitrary: g)
  case 0
  then show ?case using assms(2) by simp
next
  case (Suc k)
  from randint_range[OF Suc.prems assms(2)] obtain i where
    i: "randint low high g = Inr (i, stl g)" "low \<le> i" "i < high" by blast
  from Suc.IH[OF unit_interval_stl[OF Suc.prems]] obtain ds g' where
    ds: "randint_array low high k (stl g) = Inr (ds, g')" "length ds = k"
      "\<forall>i \<in> set ds. low \<le> i \<and> i < high" "unit_interval g'" by blast
  show ?case using i ds by simp
qed

lemma select_step_in_range:
  assumes "0 \<le> d" "d < int (length fv)" "0 \<le> sel" "sel < int (length fv)"
  shows "select_step fv d sel = Inr (if fv ! nat d < fv ! nat sel then d else sel)"
  using assms by (simp add: select_step_def getitem_in_range)

lemma select_scan:
  assumes "\<forall>j \<in> set (sel # ds). 0 \<le> j \<and> j < int (length fv)"
  shows "\<exists>r pre post. for_each (select_step fv) ds sel = Inr r \<and>
           sel # ds = pre @ r # post \<and>
           (\<forall>j \<in> set pre. fv ! nat r < fv ! nat j) \<and>
           (\<forall>j \<in> set post. fv ! nat r \<le> fv ! nat j)"
  using assms
proof (induction ds arbitrary: sel)
  case Nil
  have "for_each (select_step fv) [] sel = Inr sel \<and> sel # [] = [] @ sel # [] \<and>
        (\<forall>j \<in> set []. fv ! nat sel < fv ! nat j) \<and>
        (\<forall>j \<in> set []. fv ! nat sel \<le> fv ! nat j)" by simp
  then show ?case by blast
next
  case (Cons d ds)
  have step: "select_step fv d sel = Inr (if fv ! nat d < fv ! nat sel then d else sel)"
    using Cons.prems by (intro select_step_in_range) auto
  show ?case
  proof (cases "fv ! nat d < fv ! nat sel")
    case True
    from Cons.IH[of d] Cons.prems obtain r pre post where
      r: "for_each (select_step fv) ds d = Inr r" "d # ds = pre @ r # post"
        "\<forall>j \<in> set pre. fv ! nat r < fv ! nat j" "\<forall>j \<in> set post. fv ! nat r \<le> fv ! nat j"
      by auto
    have "fv ! nat r \<le> fv ! nat d"
    proof (cases pre)
      case Nil then show ?thesis using r(2) by simp
    next
      case (Cons a list)
      then have "d \<in> set pre" using r(2) by simp
      then show ?thesis using r(3) by fastforce
    qed
    then have "fv ! nat r < fv ! nat sel" using True by simp
    then have "for_each (select_step fv) (d # ds) sel = Inr r \<and>
           sel # d # ds = (sel # pre) @ r # post \<and>
           (\<forall>j \<in> set (sel # pre). fv ! nat r < fv ! nat j) \<and>
           (\<forall>j \<in> set post. fv ! nat r \<le> fv ! nat j)"
      using r(1,3,4) step True by (simp add: r(2)[symmetric])
    then show ?thesis by blast
  next
    case False
    from Cons.IH[of sel] Cons.prems obtain r pre post where
      r: "for_each (select_step fv) ds sel = Inr r" "sel # ds = pre @ r # post"
        "\<forall>j \<in> set pre. fv ! nat r < fv ! nat j" "\<forall>j \<in> set post. fv ! nat r \<le> fv ! nat j"
      by auto
    show ?thesis
    proof (cases pre)
      case Nil
      then have "r = sel" "post = ds" using r(2) by simp_all
      then show ?thesis using r step False
        by (intro exI[of _ sel] exI[of _ "[]"] exI[of _ "d # ds"]) simp
    next
      case (Cons a pre')
      then have a: "a = sel" "ds = pre' @ r # post" using r(2) by simp_all
      have "fv ! nat r < fv ! nat sel" using r(3) Cons a by simp
      then have "for_each (select_step fv) (d # ds) sel = Inr r \<and>
           sel # d # ds = (sel # d # pre') @ r # post \<and>
           (\<forall>j \<in> set (sel # d # pre'). fv ! nat r < fv ! nat j) \<and>
           (\<forall>j \<in> set post. fv ! nat r \<le> fv ! nat j)"
        using r step False Cons a by auto
      then show ?thesis by blast
    qed
  qed
qed

lemma select_result:
  assumes "2 \<le> length fv" "unit_interval g"
  shows "\<exists>baseline g1 drawn g2 pre winner post.
     randint 0 (int (length fv) - 1) g = Inr (baseline, g1) \<and>
     randint_array 0 (int (length fv) - 1) k g1 = Inr (drawn, g2) \<and>
     length drawn = k \<and> unit_interval g2 \<and>
     select fv k g = Inr (winner, g2) \<and>
     baseline # drawn = pre @ winner # post \<and>
     (\<forall>j \<in> set (baseline # drawn). 0 \<le> j \<and> j < int (length fv) - 1) \<and>
     (\<forall>j \<in> set pre. fv ! nat winner < fv ! nat j) \<and>
     (\<forall>j \<in> set post. fv ! nat winner \<le> fv ! nat j)"
proof -
  have lt: "0 < int (length fv) - 1" using assms(1) by simp
  from randint_range[OF assms(2) lt] obtain b where
    b: "randint 0 (int (length fv) - 1) g = Inr (b, stl g)" "0 \<le> b" "b < int (length fv) - 1"
    by blast
  from randint_array_range[OF unit_interval_stl[OF assms(2)] lt, of k] obtain ds g2 where
    ds: "randint_array 0 (int (length fv) - 1) k (stl g) = Inr (ds, g2)" "length ds = k"
      "\<forall>i \<in> set ds. 0 \<le> i \<and> i < int (length fv) - 1" "unit_interval g2"
    by blast
  have rng: "\<forall>j \<in> set (b # ds). 0 \<le> j \<and> j < int (length fv) - 1" using b ds(3) by simp
  then have "\<forall>j \<in> set (b # ds). 0 \<le> j \<and> j < int (length fv)" by fastforce
  from select_scan[OF this] obtain w pre post where
    w: "for_each (select_step fv) ds b = Inr w" "b # ds = pre @ w # post"
      "\<forall>j \<in> set pre. fv ! nat w < fv ! nat j" "\<forall>j \<in> set post. fv ! nat w \<le> fv ! nat j"
    by blast
  have "select fv k g = Inr (w, g2)" using b(1) ds(1) w(1) by (simp add: select_def)
  with b(1) ds(1,2,4) w(2,3,4) rng show ?thesis by blast
qed

text \<open>
  On a fitness list of length at least 2, for every outcome of the random draws, the
  tournament draws a baseline index and \<open>k\<close> further indices and returns an index
  \<open>winner\<close> of that candidate pool whose fitness is at most the fitness of every index
  of the pool; every candidate seen before \<open>winner\<close> has a strictly greater fitness, so
  among equal minima the first-seen index is kept.
\<close>

lemma tournament_minimum:
  assumes "2 \<le> length fitness_values" and "unit_interval g"
  shows "\<exists>baseline g1 drawn g2 seen_before winner seen_after.
     randint 0 (int (length fitness_values) - 1) g = Inr (baseline, g1) \<and>
     randint_array 0 (int (length fitness_values) - 1) k g1 = Inr (drawn, g2) \<and>
     length drawn = k \<and>
     select fitness_values k g = Inr (winner, g2) \<and>
     baseline # drawn = seen_before @ winner # seen_after \<and>
     (\<forall>j \<in> set (baseline # drawn).
        fitness_values ! nat winner \<le> fitness_values ! nat j) \<and>
     (\<forall>j \<in> set seen_before. fitness_values ! nat winner < fitness_values ! nat j)"
proof -
  from select_result[OF assms, of k] obtain b g1 ds g2 pre w post where
    r: "randint 0 (int (length fitness_values) - 1) g = Inr (b, g1)"
      "randint_array 0 (int (length fitness_values) - 1) k g1 = Inr (ds, g2)"
      "length ds = k" "select fitness_values k g = Inr (w, g2)"
      "b # ds = pre @ w # post"
      "\<forall>j \<in> set pre. fitness_values ! nat w < fitness_values ! nat j"
      "\<forall>j \<in> set post. fitness_values ! nat w \<le> fitness_values ! nat j"
    by blast
  have "\<forall>j \<in> set (pre @ w # post). fitness_values ! nat w \<le> fitness_values ! nat j"
    using r(6,7) by fastforce
  then have "\<forall>j \<in> set (b # ds). fitness_values ! nat w \<le> fitness_values ! nat j"
    by (simp only: r(5))
  with r show ?thesis by blast
qed

lemma tournament_minimum_example:
  "2 \<le> length [3, 1, 2, 0 :: real] \<and>
   unit_interval (0.9 ## 0.1 ## 0.6 ## sconst 0) \<and>
   select [3, 1, 2, 0] 2 (0.9 ## 0.1 ## 0.6 ## sconst 0) = Inr (1, sconst 0) \<and>
   (\<exists>baseline g1 drawn g2 seen_before winner seen_after.
     randint 0 (int (length [3, 1, 2, 0 :: real]) - 1) (0.9 ## 0.1 ## 0.6 ## sconst 0)
       = Inr (baseline, g1) \<and>
     randint_array 0 (int (length [3, 1, 2, 0 :: real]) - 1) 2 g1 = Inr (drawn, g2) \<and>
     length drawn = 2 \<and>
     select [3, 1, 2, 0] 2 (0.9 ## 0.1 ## 0.6 ## sconst 0) = Inr (winner, g2) \<and>
     baseline # drawn = seen_before @ winner # seen_after \<and>
     (\<forall>j \<in> set (baseline # drawn). [3, 1, 2, 0 :: real] ! nat winner \<le> [3, 1, 2, 0] ! nat j) \<and>
     (\<forall>j \<in> set seen_before. [3, 1, 2, 0 :: real] ! nat winner < [3, 1, 2, 0] ! nat j))"
proof -
  have u: "unit_interval (0.9 ## 0.1 ## 0.6 ## sconst 0)"
    by (simp add: unit_interval_SCons unit_interval_sconst)
  have l: "2 \<le> length [3, 1, 2, 0 :: real]" by simp
  have e: "select [3, 1, 2, 0] 2 (0.9 ## 0.1 ## 0.6 ## sconst 0) = Inr (1, sconst 0)"
    by (simp add: select_def randint_def numeral_2_eq_2 select_step_def getitem_def)
  show ?thesis using u l e tournament_minimum[OF l u, of 2] by blast
qed

text \<open>
  Claim C4. For every non-empty fitness list and every outcome of the random draws,
  tournament selection returns an index whose fitness is at most the fitness of every
  index of its candidate pool. The code does not meet this on a list of one fitness
  value, the population of one chromosome: the baseline draw is \<open>randint(0, 0)\<close>, whose
  interval is empty, so the selection raises ValueError for every fitness value, every
  \<open>k\<close> and every state of the random source, and returns no index.
\<close>

theorem tournament_single_failure:
  "randint 0 (int (length [x :: real]) - 1) g = Inl (ValueError Randint) \<and>
   select [x] k g = Inl (ValueError Randint)"
proof -
  have draw: "randint 0 (int (length [x]) - 1) g = Inl (ValueError Randint)"
    by (simp add: randint_def)
  then have "select [x] k g = Inl (ValueError Randint)"
    by (simp add: select_def)
  with draw show ?thesis by simp
qed

section \<open>Crossover and mutation\<close>

lemma cross_over_skipped:
  assumes "shd g > crossover_rate ga"
  shows "cross_over ga p1 p2 g = (p1, ga, stl g)"
  using assms by (simp add: cross_over_def random_sample_def)

lemma cross_over_performed:
  assumes "\<not> shd g > crossover_rate ga"
  shows "cross_over ga p1 p2 g =
     (let r = shd (stl g); a = heap ga ! p1; b = heap ga ! p2; fresh = length (heap ga) in
      if r < 1 / 5 then
        (fresh, ga\<lparr>heap := heap ga @ [\<lparr>kp = kp b, ki = ki a, kd = kd a, eta = eta b\<rparr>]\<rparr>,
         stl (stl g))
      else if r < 2 / 5 then
        (fresh, ga\<lparr>heap := heap ga @ [\<lparr>kp = kp a, ki = ki b, kd = kd a, eta = eta b\<rparr>]\<rparr>,
         stl (stl g))
      else if r < 3 / 5 then
        (fresh, ga\<lparr>heap := heap ga @ [\<lparr>kp = kp a, ki = ki a, kd = kd b, eta = eta a\<rparr>]\<rparr>,
         stl (stl g))
      else if r < 4 / 5 then
        (fresh, ga\<lparr>heap := heap ga @ [\<lparr>kp = kp b, ki = ki a, kd = kd b, eta = eta a\<rparr>]\<rparr>,
         stl (stl g))
      else (p2, ga, stl (stl g)))"
  using assms by (simp add: cross_over_def random_sample_def new_Chromosome_def Let_def)

text \<open>
  Claim C3. For every pair of parents, whenever crossover occurs (the first draw does not
  exceed \<open>crossover_rate\<close>), one further draw \<open>r\<close> is consumed and the genes of the
  child \<open>c\<close> follow the table of five bands: \<open>r\<close> in \<open>[0, 1/5)\<close> gives
  \<open>(p2.kp, p1.ki, p1.kd, p2.eta)\<close>, in \<open>[1/5, 2/5)\<close> gives
  \<open>(p1.kp, p2.ki, p1.kd, p2.eta)\<close>, in \<open>[2/5, 3/5)\<close> gives
  \<open>(p1.kp, p1.ki, p2.kd, p1.eta)\<close>, in \<open>[3/5, 4/5)\<close> gives
  \<open>(p2.kp, p1.ki, p2.kd, p1.eta)\<close>, and in \<open>[4/5, 1)\<close> gives the four genes of
  \<open>parent_2\<close>.
\<close>

theorem cross_over_bands:
  assumes "\<not> shd g > crossover_rate ga"
    and "cross_over ga parent_1 parent_2 g = (child, ga', g')"
    and "r = shd (stl g)"
    and "p1 = heap ga ! parent_1" and "p2 = heap ga ! parent_2"
    and "c = heap ga' ! child"
  shows "g' = stl (stl g) \<and>
     (0 \<le> r \<and> r < 1 / 5 \<longrightarrow> kp c = kp p2 \<and> ki c = ki p1 \<and> kd c = kd p1 \<and> eta c = eta p2) \<and>
     (1 / 5 \<le> r \<and> r < 2 / 5 \<longrightarrow> kp c = kp p1 \<and> ki c = ki p2 \<and> kd c = kd p1 \<and> eta c = eta p2) \<and>
     (2 / 5 \<le> r \<and> r < 3 / 5 \<longrightarrow> kp c = kp p1 \<and> ki c = ki p1 \<and> kd c = kd p2 \<and> eta c = eta p1) \<and>
     (3 / 5 \<le> r \<and> r < 4 / 5 \<longrightarrow> kp c = kp p2 \<and> ki c = ki p1 \<and> kd c = kd p2 \<and> eta c = eta p1) \<and>
     (4 / 5 \<le> r \<and> r < 1 \<longrightarrow> kp c = kp p2 \<and> ki c = ki p2 \<and> kd c = kd p2 \<and> eta c = eta p2)"
  using assms(2-) unfolding cross_over_performed[OF assms(1)]
  by (auto simp: Let_def split: if_splits)

theorem cross_over_bands_witness:
  "\<not> shd (0.3 ## 0.5 ## sconst 0) > crossover_rate (example_parents 0.9) \<and>
   cross_over (example_parents 0.9) 0 1 (0.3 ## 0.5 ## sconst 0)
     = (2, (example_parents 0.9)\<lparr>heap := heap (example_parents 0.9)
              @ [\<lparr>kp = 1, ki = 1, kd = 2, eta = 1\<rparr>]\<rparr>, sconst 0) \<and>
   (2 / 5 :: real) \<le> shd (stl (0.3 ## 0.5 ## sconst 0)) \<and>
   shd (stl (0.3 ## 0.5 ## sconst 0)) < (3 / 5 :: real) \<and>
   kp (heap ((example_parents 0.9)\<lparr>heap := heap (example_parents 0.9)
              @ [\<lparr>kp = 1, ki = 1, kd = 2, eta = 1\<rparr>]\<rparr>) ! 2)
     = kp (heap (example_parents 0.9) ! 0) \<and>
   kd (heap ((example_parents 0.9)\<lparr>heap := heap (example_parents 0.9)
              @ [\<lparr>kp = 1, ki = 1, kd = 2, eta = 1\<rparr>]\<rparr>) ! 2)
     = kd (heap (example_parents 0.9) ! 1)"
proof -
  have h: "\<not> shd (0.3 ## 0.5 ## sconst 0) > crossover_rate (example_parents 0.9)"
    by (simp add: example_parents_def)
  have c: "cross_over (example_parents 0.9) 0 1 (0.3 ## 0.5 ## sconst 0)
     = (2, (example_parents 0.9)\<lparr>heap := heap (example_parents 0.9)
              @ [\<lparr>kp = 1, ki = 1, kd = 2, eta = 1\<rparr>]\<rparr>, sconst 0)"
    by (simp add: cross_over_def random_sample_def new_Chromosome_def example_parents_def)
  from cross_over_bands[OF h c refl refl refl refl] h c show ?thesis
    by simp
qed

text \<open>
  Claim C7, as amended. For every pair of parents: with \<open>crossover_rate = 0\<close>, crossover
  returns \<open>parent_1\<close> itself, with nothing changed, for every first draw greater than 0;
  with \<open>crossover_rate = 1\<close> and every outcome of the draws, crossover consumes two draws
  and its child carries one of the five gene combinations of the bands, so the branch
  without crossover is never taken.
\<close>

theorem cross_over_rate_extremes:
  "(crossover_rate ga = 0 \<and> 0 < shd g \<longrightarrow>
      cross_over ga parent_1 parent_2 g = (parent_1, ga, stl g)) \<and>
   (crossover_rate ga = 1 \<and> unit_interval g \<longrightarrow>
      (\<exists>child ga'. cross_over ga parent_1 parent_2 g = (child, ga', stl (stl g)) \<and>
         heap ga' ! child \<in>
           {\<lparr>kp = kp (heap ga ! parent_2), ki = ki (heap ga ! parent_1),
             kd = kd (heap ga ! parent_1), eta = eta (heap ga ! parent_2)\<rparr>,
            \<lparr>kp = kp (heap ga ! parent_1), ki = ki (heap ga ! parent_2),
             kd = kd (heap ga ! parent_1), eta = eta (heap ga ! parent_2)\<rparr>,
            \<lparr>kp = kp (heap ga ! parent_1), ki = ki (heap ga ! parent_1),
             kd = kd (heap ga ! parent_2), eta = eta (heap ga ! parent_1)\<rparr>,
            \<lparr>kp = kp (heap ga ! parent_2), ki = ki (heap ga ! parent_1),
             kd = kd (heap ga ! parent_2), eta = eta (heap ga ! parent_1)\<rparr>,
            heap ga ! parent_2}))"
proof (intro conjI impI)
  assume "crossover_rate ga = 0 \<and> 0 < shd g"
  then show "cross_over ga parent_1 parent_2 g = (parent_1, ga, stl g)"
    by (simp add: cross_over_skipped)
next
  assume a: "crossover_rate ga = 1 \<and> unit_interval g"
  then have "\<not> shd g > crossover_rate ga" using unit_interval_shd[of g] by simp
  from cross_over_performed[OF this, of parent_1 parent_2]
  show "\<exists>child ga'. cross_over ga parent_1 parent_2 g = (child, ga', stl (stl g)) \<and>
         heap ga' ! child \<in>
           {\<lparr>kp = kp (heap ga ! parent_2), ki = ki (heap ga ! parent_1),
             kd = kd (heap ga ! parent_1), eta = eta (heap ga ! parent_2)\<rparr>,
            \<lparr>kp = kp (heap ga ! parent_1), ki = ki (heap ga ! parent_2),
             kd = kd (heap ga ! parent_1), eta = eta (heap ga ! parent_2)\<rparr>,
            \<lparr>kp = kp (heap ga ! parent_1), ki = ki (heap ga ! parent_1),
             kd = kd (heap ga ! parent_2), eta = eta (heap ga ! parent_1)\<rparr>,
            \<lparr>kp = kp (heap ga ! parent_2), ki = ki (heap ga ! parent_1),
             kd = kd (heap ga ! parent_2), eta = eta (heap ga ! parent_1)\<rparr>,
            heap ga ! parent_2}"
    by (simp add: Let_def)
qed

theorem cross_over_rate_extremes_witness:
  "crossover_rate (example_parents 0) = 0 \<and> (0 :: real) < shd (sconst (1 / 2)) \<and>
   cross_over (example_parents 0) 0 1 (sconst (1 / 2))
     = (0, example_parents 0, sconst (1 / 2)) \<and>
   crossover_rate (example_parents 1) = 1 \<and> unit_interval (sconst (1 / 2)) \<and>
   cross_over (example_parents 1) 0 1 (sconst (1 / 2))
     = (2, (example_parents 1)\<lparr>heap := heap (example_parents 1)
              @ [\<lparr>kp = 1, ki = 1, kd = 2, eta = 1\<rparr>]\<rparr>, sconst (1 / 2))"
proof -
  have a: "crossover_rate (example_parents 0) = 0 \<and> (0 :: real) < shd (sconst (1 / 2))"
    by (simp add: example_parents_def)
  have b: "crossover_rate (example_parents 1) = 1 \<and> unit_interval (sconst (1 / 2))"
    by (simp add: example_parents_def unit_interval_sconst)
  have c: "cross_over (example_parents 1) 0 1 (sconst (1 / 2))
     = (2, (example_parents 1)\<lparr>heap := heap (example_parents 1)
              @ [\<lparr>kp = 1, ki = 1, kd = 2, eta = 1\<rparr>]\<rparr>, sconst (1 / 2))"
    by (simp add: cross_over_def random_sample_def new_Chromosome_def example_parents_def)
  from cross_over_rate_extremes[of "example_parents 0" "sconst (1 / 2)" 0 1] a
  have "cross_over (example_parents 0) 0 1 (sconst (1 / 2))
     = (0, example_parents 0, sconst (1 / 2))" by simp
  with a b c show ?thesis by simp
qed

text \<open>
  The claim as stated covers every outcome of the draws with \<open>crossover_rate = 0\<close>; the
  draw 0 does not exceed the rate, so a band is applied and the child takes \<open>kp\<close> and
  \<open>eta\<close> of \<open>parent_2\<close>.
\<close>

theorem cross_over_rate_zero_counterexample:
  "crossover_rate (example_parents 0) = 0 \<and> unit_interval (sconst 0) \<and>
   cross_over (example_parents 0) 0 1 (sconst 0)
     = (2, (example_parents 0)\<lparr>heap := heap (example_parents 0)
              @ [\<lparr>kp = 2, ki = 1, kd = 1, eta = 2\<rparr>]\<rparr>, sconst 0) \<and>
   heap (example_parents 0) ! 0 = \<lparr>kp = 1, ki = 1, kd = 1, eta = 1\<rparr>"
  by (simp add: cross_over_def random_sample_def new_Chromosome_def example_parents_def
        unit_interval_sconst)

lemma check_boundary_within:
  "fst b \<le> snd b \<Longrightarrow> fst b \<le> check_boundary v b \<and> check_boundary v b \<le> snd b"
  by (simp add: check_boundary_def)

lemma within_boundary_heap_update [simp]:
  "within_boundary (ga\<lparr>heap := h\<rparr>) c = within_boundary ga c"
  by (simp add: within_boundary_def)

lemma mutation_unfolded:
  "mutation ga a g =
     (let vsn = - 0.3 + (0.3 - (- 0.3)) * shd g;
          g1 = stl g;
          c = heap ga ! a
      in if shd g1 < mutation_probability ga * 0.25 then
           (a, ga\<lparr>heap := (heap ga)[a :=
              c\<lparr>kp := check_boundary (kp c + shd (stl g1) * vsn) (pid_boundary ga)\<rparr>]\<rparr>,
            stl (stl g1))
         else if shd (stl g1) < mutation_probability ga * 0.5 then
           (a, ga\<lparr>heap := (heap ga)[a :=
              c\<lparr>ki := check_boundary (ki c + shd (stl (stl g1)) * vsn) (pid_boundary ga)\<rparr>]\<rparr>,
            stl (stl (stl g1)))
         else if shd (stl (stl g1)) < mutation_probability ga * 0.75 then
           (a, ga\<lparr>heap := (heap ga)[a :=
              c\<lparr>kd := check_boundary (kd c + shd (stl (stl (stl g1))) * vsn)
                      (pid_boundary ga)\<rparr>]\<rparr>,
            stl (stl (stl (stl g1))))
         else if shd (stl (stl (stl g1))) < mutation_probability ga then
           (a, ga\<lparr>heap := (heap ga)[a :=
              c\<lparr>eta := check_boundary (eta c + 4 * shd (stl (stl (stl (stl g1)))) * vsn)
                       (eta_boundary ga)\<rparr>]\<rparr>,
            stl (stl (stl (stl (stl g1)))))
         else (a, ga, stl (stl (stl (stl g1)))))"
  by (simp add: mutation_def uniform_def random_sample_def Let_def)

lemma mutation_result:
  "\<exists>v g'. mutation ga a g = (a, ga\<lparr>heap := (heap ga)[a := v]\<rparr>, g') \<and>
     (ordered_boundaries ga \<and> within_boundary ga (heap ga ! a) \<longrightarrow> within_boundary ga v) \<and>
     (unit_interval g \<longrightarrow> unit_interval g')"
proof -
  define c where "c = heap ga ! a"
  define g1 where "g1 = stl g"
  consider (p) "shd g1 < mutation_probability ga * 0.25"
    | (i) "\<not> shd g1 < mutation_probability ga * 0.25"
          "shd (stl g1) < mutation_probability ga * 0.5"
    | (d) "\<not> shd g1 < mutation_probability ga * 0.25"
          "\<not> shd (stl g1) < mutation_probability ga * 0.5"
          "shd (stl (stl g1)) < mutation_probability ga * 0.75"
    | (e) "\<not> shd g1 < mutation_probability ga * 0.25"
          "\<not> shd (stl g1) < mutation_probability ga * 0.5"
          "\<not> shd (stl (stl g1)) < mutation_probability ga * 0.75"
          "shd (stl (stl (stl g1))) < mutation_probability ga"
    | (n) "\<not> shd g1 < mutation_probability ga * 0.25"
          "\<not> shd (stl g1) < mutation_probability ga * 0.5"
          "\<not> shd (stl (stl g1)) < mutation_probability ga * 0.75"
          "\<not> shd (stl (stl (stl g1))) < mutation_probability ga"
    by blast
  then show ?thesis
  proof cases
    case p
    then show ?thesis
      unfolding mutation_unfolded Let_def g1_def[symmetric] c_def[symmetric]
      by (intro exI conjI) 
         (simp, simp add: within_boundary_def ordered_boundaries_def check_boundary_within,
          simp add: g1_def unit_interval_stl)
  next
    case i
    then show ?thesis
      unfolding mutation_unfolded Let_def g1_def[symmetric] c_def[symmetric]
      by (intro exI conjI) 
         (simp, simp add: within_boundary_def ordered_boundaries_def check_boundary_within,
          simp add: g1_def unit_interval_stl)
  next
    case d
    then show ?thesis
      unfolding mutation_unfolded Let_def g1_def[symmetric] c_def[symmetric]
      by (intro exI conjI) 
         (simp, simp add: within_boundary_def ordered_boundaries_def check_boundary_within,
          simp add: g1_def unit_interval_stl)
  next
    case e
    then show ?thesis
      unfolding mutation_unfolded Let_def g1_def[symmetric] c_def[symmetric]
      by (intro exI conjI) 
         (simp, simp add: within_boundary_def ordered_boundaries_def check_boundary_within,
          simp add: g1_def unit_interval_stl)
  next
    case n
    have "ga\<lparr>heap := (heap ga)[a := c]\<rparr> = ga" by (simp add: c_def)
    with n show ?thesis
      unfolding mutation_unfolded Let_def g1_def[symmetric] c_def[symmetric]
      by (intro exI[of _ c] exI[of _ "stl (stl (stl (stl g1)))"] conjI)
         (simp, simp add: c_def, simp add: g1_def unit_interval_stl)
  qed
qed

lemma cross_over_result:
  assumes "p1 < length (heap ga)" "p2 < length (heap ga)"
  shows "\<exists>c h g'. cross_over ga p1 p2 g = (c, ga\<lparr>heap := heap ga @ h\<rparr>, g') \<and>
           c < length (heap ga @ h) \<and>
           (within_boundary ga (heap ga ! p1) \<and> within_boundary ga (heap ga ! p2)
              \<longrightarrow> (\<forall>v \<in> set h. within_boundary ga v)) \<and>
           (unit_interval g \<longrightarrow> unit_interval g')"
proof (cases "shd g > crossover_rate ga")
  case True
  have "cross_over ga p1 p2 g = (p1, ga\<lparr>heap := heap ga @ []\<rparr>, stl g)"
    using cross_over_skipped[OF True] by simp
  then show ?thesis using assms unit_interval_stl
    by (intro exI[of _ p1] exI[of _ "[]"] exI[of _ "stl g"]) simp
next
  case False
  define r where "r = shd (stl g)"
  have u: "unit_interval g \<longrightarrow> unit_interval (stl (stl g))"
    using unit_interval_stl by blast
  have same: "ga\<lparr>heap := heap ga @ []\<rparr> = ga" by simp
  consider "r < 1 / 5" | "\<not> r < 1 / 5" "r < 2 / 5" | "\<not> r < 1 / 5" "\<not> r < 2 / 5" "r < 3 / 5"
    | "\<not> r < 1 / 5" "\<not> r < 2 / 5" "\<not> r < 3 / 5" "r < 4 / 5"
    | "\<not> r < 1 / 5" "\<not> r < 2 / 5" "\<not> r < 3 / 5" "\<not> r < 4 / 5"
    by blast
  then show ?thesis
  proof cases
    case 1
    then show ?thesis
      unfolding cross_over_performed[OF False] Let_def r_def[symmetric] using u
      by (intro exI conjI) (simp, simp, simp add: within_boundary_def, simp)
  next
    case 2
    then show ?thesis
      unfolding cross_over_performed[OF False] Let_def r_def[symmetric] using u
      by (intro exI conjI) (simp, simp, simp add: within_boundary_def, simp)
  next
    case 3
    then show ?thesis
      unfolding cross_over_performed[OF False] Let_def r_def[symmetric] using u
      by (intro exI conjI) (simp, simp, simp add: within_boundary_def, simp)
  next
    case 4
    then show ?thesis
      unfolding cross_over_performed[OF False] Let_def r_def[symmetric] using u
      by (intro exI conjI) (simp, simp, simp add: within_boundary_def, simp)
  next
    case 5
    then have "cross_over ga p1 p2 g = (p2, ga\<lparr>heap := heap ga @ []\<rparr>, stl (stl g))"
      unfolding cross_over_performed[OF False] Let_def r_def[symmetric] by simp
    then show ?thesis using assms u
      by (intro exI[of _ p2] exI[of _ "[]"] exI[of _ "stl (stl g)"]) simp
  qed
qed

section \<open>One generation\<close>

lemma for_each_invariant:
  assumes "\<And>i s. i \<in> set xs \<Longrightarrow> P s \<Longrightarrow> \<exists>s'. body i s = Inr s' \<and> P s' \<and> m s' = Suc (m s)"
    and "P s"
  shows "\<exists>s'. for_each body xs s = Inr s' \<and> P s' \<and> m s' = m s + length xs"
  using assms
proof (induction xs arbitrary: s)
  case Nil
  then show ?case by simp
next
  case (Cons i xs)
  from Cons.prems(1)[of i s] Cons.prems(2) obtain s1 where
    s1: "body i s = Inr s1" "P s1" "m s1 = Suc (m s)" by auto
  have "\<exists>s'. for_each body xs s1 = Inr s' \<and> P s' \<and> m s' = m s1 + length xs"
    using Cons.prems(1) s1(2) by (intro Cons.IH) auto
  then show ?case using s1 by auto
qed

lemma append_child_step:
  assumes inv: "child_loop_inv ga (ga1, new, g1)"
    and wf: "well_formed ga"
    and len: "length fv = length (populations ga)" "2 \<le> length fv"
  shows "\<exists>ga2 c g2. append_child fv i (ga1, new, g1) = Inr (ga2, new @ [c], g2) \<and>
           child_loop_inv ga (ga2, new @ [c], g2)"
proof -
  from inv have ga1: "ga1 = ga\<lparr>heap := heap ga1\<rparr>"
    and grow: "length (heap ga) \<le> length (heap ga1)"
    and refs: "\<forall>r \<in> set new. r < length (heap ga1)"
    and u1: "unit_interval g1"
    and within: "ordered_boundaries ga \<and> heap_within ga \<longrightarrow> heap_within ga1"
    by (simp_all add: child_loop_inv_def)
  have pops: "populations ga1 = populations ga"
    by (subst ga1) simp
  have bounds: "pid_boundary ga1 = pid_boundary ga" "eta_boundary ga1 = eta_boundary ga"
    by (subst ga1, simp)+
  from select_result[OF len(2) u1, of 2] obtain b ds g2 pre w post where
    sel: "select fv 2 g1 = Inr (w, g2)" "unit_interval g2"
      "b # ds = pre @ w # post"
      "\<forall>j \<in> set (b # ds). 0 \<le> j \<and> j < int (length fv) - 1"
    by blast
  have "w \<in> set (b # ds)" by (simp only: sel(3)) simp
  with sel(4) have w: "0 \<le> w" "w < int (length fv) - 1" by blast+
  define p1 where "p1 = populations ga ! nat w"
  define p2 where "p2 = populations ga ! nat (w + 1)"
  have r1: "getitem (populations ga1) w ParentOne = Inr p1"
    using w len(1) by (simp add: pops p1_def getitem_in_range)
  have r2: "getitem (populations ga1) (w + 1) ParentTwo = Inr p2"
    using w len(1) by (simp add: pops p2_def getitem_in_range)
  have "p1 \<in> set (populations ga)" "p2 \<in> set (populations ga)"
    using w len(1) by (simp_all add: p1_def p2_def)
  then have valid: "p1 < length (heap ga1)" "p2 < length (heap ga1)"
    using wf grow by (auto simp: well_formed_def)
  from cross_over_result[OF valid, of g2] obtain c h g3 where
    co: "cross_over ga1 p1 p2 g2 = (c, ga1\<lparr>heap := heap ga1 @ h\<rparr>, g3)"
      "c < length (heap ga1 @ h)"
      "within_boundary ga1 (heap ga1 ! p1) \<and> within_boundary ga1 (heap ga1 ! p2)
         \<longrightarrow> (\<forall>v \<in> set h. within_boundary ga1 v)"
      "unit_interval g2 \<longrightarrow> unit_interval g3"
    by blast
  define ga' where "ga' = ga1\<lparr>heap := heap ga1 @ h\<rparr>"
  from mutation_result[of ga' c g3] obtain v g4 where
    mu: "mutation ga' c g3 = (c, ga'\<lparr>heap := (heap ga')[c := v]\<rparr>, g4)"
      "ordered_boundaries ga' \<and> within_boundary ga' (heap ga' ! c) \<longrightarrow> within_boundary ga' v"
      "unit_interval g3 \<longrightarrow> unit_interval g4"
    by blast
  define ga2 where "ga2 = ga'\<lparr>heap := (heap ga')[c := v]\<rparr>"
  have heap2: "heap ga2 = (heap ga1 @ h)[c := v]" by (simp add: ga2_def ga'_def)
  have result: "append_child fv i (ga1, new, g1) = Inr (ga2, new @ [c], g4)"
    using sel(1) r1 r2 co(1) mu(1)
    by (simp add: append_child_def ga'_def[symmetric] ga2_def[symmetric])
  have "ga2 = ga1\<lparr>heap := heap ga2\<rparr>" by (simp add: ga2_def ga'_def)
  also have "\<dots> = (ga\<lparr>heap := heap ga1\<rparr>)\<lparr>heap := heap ga2\<rparr>" using ga1 by simp
  finally have eq2: "ga2 = ga\<lparr>heap := heap ga2\<rparr>" by simp
  have len2: "length (heap ga1) \<le> length (heap ga2)" by (simp add: heap2)
  have u4: "unit_interval g4" using sel(2) co(4) mu(3) by blast
  have wb: "\<And>x. within_boundary ga1 x = within_boundary ga x"
           "\<And>x. within_boundary ga' x = within_boundary ga x"
    by (simp_all add: within_boundary_def bounds ga'_def)
  have ob: "ordered_boundaries ga' = ordered_boundaries ga"
    by (simp add: ordered_boundaries_def bounds ga'_def)
  have hw: "heap_within ga2" if "ordered_boundaries ga" "heap_within ga"
  proof -
    from that within have h1: "\<forall>x \<in> set (heap ga1). within_boundary ga x"
      by (simp add: heap_within_def wb)
    then have "within_boundary ga (heap ga1 ! p1)" "within_boundary ga (heap ga1 ! p2)"
      using valid by simp_all
    with co(3) have "\<forall>x \<in> set h. within_boundary ga x" by (simp add: wb)
    with h1 have all: "\<forall>x \<in> set (heap ga1 @ h). within_boundary ga x" by auto
    then have "within_boundary ga ((heap ga1 @ h) ! c)" using co(2) nth_mem by blast
    then have "within_boundary ga (heap ga' ! c)" by (simp add: ga'_def)
    then have "within_boundary ga v" using mu(2) that(1) by (simp add: wb ob)
    with all have "\<forall>x \<in> set ((heap ga1 @ h)[c := v]). within_boundary ga x"
      using set_update_subset_insert[of "heap ga1 @ h" c v] by blast
    then show ?thesis
      by (simp add: heap_within_def heap2 within_boundary_def ga2_def ga'_def bounds)
  qed
  have refs2: "\<forall>r \<in> set (new @ [c]). r < length (heap ga2)"
    using refs co(2) by (auto simp: heap2)
  have "child_loop_inv ga (ga2, new @ [c], g4)"
    unfolding child_loop_inv_def using eq2 len2 grow u4 hw refs2 by simp
  with result show ?thesis by blast
qed

lemma calculate_fitness_total:
  assumes "0 \<le> i" "i < int (length (populations ga))"
    and "1 \<le> config_period (control_system_config ga)
              * config_slicing_per_period (control_system_config ga)"
  shows "\<exists>v. calculate_fitness ga i = Inr v"
proof -
  from ControlSystem_init_total[OF assms(3)] obtain s0 where
    s0: "ControlSystem_init (heap ga ! (populations ga ! nat i)) (control_system_config ga)
         = Inr s0" by blast
  from run_total[OF s0] obtain s where "run s0 = Inr s" by blast
  with s0 assms(1,2) show ?thesis
    by (simp add: calculate_fitness_def getitem_in_range)
qed

lemma fitness_loop_total:
  assumes "length (populations ga) = nat n"
    and "1 \<le> config_period (control_system_config ga)
              * config_slicing_per_period (control_system_config ga)"
  shows "\<exists>fv. for_each (append_fitness ga) (py_range 0 n) [] = Inr fv \<and> length fv = nat n"
proof -
  have "\<exists>fv. for_each (append_fitness ga) (py_range 0 n) [] = Inr fv \<and> True \<and>
          length fv = length ([] :: real list) + length (py_range 0 n)"
  proof (rule for_each_invariant[where P = "\<lambda>_. True"])
    fix i and acc :: "real list"
    assume "i \<in> set (py_range 0 n)"
    then have "0 \<le> i" "i < int (length (populations ga))"
      using assms(1) by (auto simp: py_range_def)
    from calculate_fitness_total[OF this assms(2)] obtain v where
      "calculate_fitness ga i = Inr v" by blast
    then show "\<exists>s'. append_fitness ga i acc = Inr s' \<and> True \<and> length s' = Suc (length acc)"
      by (simp add: append_fitness_def)
  qed simp
  then show ?thesis by (simp add: py_range_def)
qed

lemma fitness_loop_fails:
  assumes "1 \<le> n" "length (populations ga) = nat n"
    and "config_period (control_system_config ga)
           * config_slicing_per_period (control_system_config ga) \<le> 0"
  shows "for_each (append_fitness ga) (py_range 0 n) [] =
     Inl (if config_period (control_system_config ga)
               * config_slicing_per_period (control_system_config ga) < 0
          then ValueError Linspace else IndexError InputSignal)"
proof -
  have "py_range 0 n = 0 # py_range 1 n"
    using assms(1) by (simp add: py_range_def upto_rec1)
  moreover have "getitem (populations ga) 0 Populations = Inr (populations ga ! 0)"
    using assms(1,2) by (simp add: getitem_def)
  ultimately show ?thesis
    using ControlSystem_init_fails[OF assms(3)]
    by (simp add: append_fitness_def calculate_fitness_def)
qed

lemma child_loop_total:
  assumes wf: "well_formed ga" and u: "unit_interval g"
    and len: "length fv = length (populations ga)" "2 \<le> length fv"
  shows "\<exists>ga1 new g1. for_each (append_child fv) xs (ga, [], g) = Inr (ga1, new, g1) \<and>
           child_loop_inv ga (ga1, new, g1) \<and> length new = length xs"
proof -
  have start: "child_loop_inv ga (ga, [], g)"
    using u by (simp add: child_loop_inv_def)
  have "\<exists>s'. for_each (append_child fv) xs (ga, [], g) = Inr s' \<and> child_loop_inv ga s' \<and>
          length (fst (snd s')) = length (fst (snd (ga, [] :: nat list, g))) + length xs"
  proof (rule for_each_invariant[where P = "child_loop_inv ga"
          and m = "\<lambda>s. length (fst (snd s))", OF _ start])
    fix i s
    assume "child_loop_inv ga s"
    moreover obtain ga1 new g1 where s: "s = (ga1, new, g1)" by (cases s) auto
    ultimately obtain ga2 c g2 where
      "append_child fv i (ga1, new, g1) = Inr (ga2, new @ [c], g2)"
      "child_loop_inv ga (ga2, new @ [c], g2)"
      using append_child_step[OF _ wf len, of ga1 new g1 i] by blast
    then show "\<exists>s'. append_child fv i s = Inr s' \<and> child_loop_inv ga s' \<and>
        length (fst (snd s')) = Suc (length (fst (snd s)))"
      using s by auto
  qed
  then show ?thesis by auto
qed

lemma produce_next_generation_total:
  assumes wf: "well_formed ga" and u: "unit_interval g"
    and pop: "2 \<le> population_number ga"
    and cfg: "1 \<le> config_period (control_system_config ga)
              * config_slicing_per_period (control_system_config ga)"
  shows "\<exists>ga' g'. produce_next_generation ga g = Inr (ga', g') \<and>
           ga' = ga\<lparr>heap := heap ga', populations := populations ga'\<rparr> \<and>
           well_formed ga' \<and> unit_interval g' \<and>
           (ordered_boundaries ga \<and> heap_within ga \<longrightarrow> heap_within ga')"
proof -
  from wf have lp: "length (populations ga) = nat (population_number ga)"
    by (simp add: well_formed_def)
  from fitness_loop_total[OF lp cfg] obtain fv where
    fv: "for_each (append_fitness ga) (py_range 0 (population_number ga)) [] = Inr fv"
      "length fv = nat (population_number ga)" by blast
  have len: "length fv = length (populations ga)" "2 \<le> length fv"
    using fv(2) lp pop by simp_all
  from child_loop_total[OF wf u len, of "py_range 0 (population_number ga)"]
  obtain ga1 new g1 where
    loop: "for_each (append_child fv) (py_range 0 (population_number ga)) (ga, [], g)
           = Inr (ga1, new, g1)"
      "child_loop_inv ga (ga1, new, g1)"
      "length new = length (py_range 0 (population_number ga))"
    by blast
  define ga' where "ga' = ga1\<lparr>populations := new\<rparr>"
  have res: "produce_next_generation ga g = Inr (ga', g1)"
    by (simp add: produce_next_generation_def fv(1) loop(1) ga'_def)
  from loop(2) have ga1: "ga1 = ga\<lparr>heap := heap ga1\<rparr>"
    and refs: "\<forall>r \<in> set new. r < length (heap ga1)"
    and u1: "unit_interval g1"
    and within: "ordered_boundaries ga \<and> heap_within ga \<longrightarrow> heap_within ga1"
    by (simp_all add: child_loop_inv_def)
  have "ga' = (ga\<lparr>heap := heap ga1\<rparr>)\<lparr>populations := new\<rparr>"
    unfolding ga'_def using ga1 by simp
  then have eq: "ga' = ga\<lparr>heap := heap ga', populations := populations ga'\<rparr>"
    by (simp add: ga'_def)
  have pn: "population_number ga' = population_number ga"
    by (subst eq) simp
  have "length new = nat (population_number ga)"
    using loop(3) pop by (simp add: py_range_def)
  then have wf': "well_formed ga'"
    using refs by (simp add: well_formed_def pn) (simp add: ga'_def)
  have "heap_within ga' = heap_within ga1"
    by (simp add: heap_within_def within_boundary_def ga'_def)
  with res eq wf' u1 within show ?thesis by blast
qed

lemma produce_next_generation_empty:
  assumes "population_number ga \<le> 0"
  shows "produce_next_generation ga g = Inr (ga\<lparr>populations := []\<rparr>, g)"
  using assms by (simp add: produce_next_generation_def py_range_def)

lemma produce_next_generation_no_signal:
  assumes "well_formed ga" "1 \<le> population_number ga"
    and "config_period (control_system_config ga)
           * config_slicing_per_period (control_system_config ga) \<le> 0"
  shows "produce_next_generation ga g =
     Inl (if config_period (control_system_config ga)
               * config_slicing_per_period (control_system_config ga) < 0
          then ValueError Linspace else IndexError InputSignal)"
proof -
  from assms(1) have "length (populations ga) = nat (population_number ga)"
    by (simp add: well_formed_def)
  from fitness_loop_fails[OF assms(2) this assms(3)] show ?thesis
    by (simp add: produce_next_generation_def)
qed

lemma produce_next_generation_single:
  assumes "well_formed ga" "population_number ga = 1"
    and "1 \<le> config_period (control_system_config ga)
              * config_slicing_per_period (control_system_config ga)"
  shows "produce_next_generation ga g = Inl (ValueError Randint)"
proof -
  from assms(1) have lp: "length (populations ga) = nat (population_number ga)"
    by (simp add: well_formed_def)
  from fitness_loop_total[OF lp assms(3)] obtain fv where
    fv: "for_each (append_fitness ga) (py_range 0 (population_number ga)) [] = Inr fv"
      "length fv = nat (population_number ga)" by blast
  have "select fv 2 g = Inl (ValueError Randint)"
    using fv(2) assms(2) by (simp add: select_def randint_def)
  then have "for_each (append_child fv) (py_range 0 (population_number ga)) (ga, [], g)
             = Inl (ValueError Randint)"
    using assms(2) by (simp add: py_range_def append_child_def)
  with fv(1) show ?thesis by (simp add: produce_next_generation_def)
qed

lemma produce_next_generation_returns:
  assumes wf: "well_formed ga" and u: "unit_interval g"
    and res: "produce_next_generation ga g = Inr (ga', g')"
  shows "ga' = ga\<lparr>heap := heap ga', populations := populations ga'\<rparr> \<and>
         well_formed ga' \<and>
         (ordered_boundaries ga \<and> heap_within ga \<longrightarrow> heap_within ga')"
proof -
  let ?N = "config_period (control_system_config ga)
              * config_slicing_per_period (control_system_config ga)"
  consider (none) "population_number ga \<le> 0"
    | (nosig) "1 \<le> population_number ga" "?N \<le> 0"
    | (one) "population_number ga = 1" "1 \<le> ?N"
    | (many) "2 \<le> population_number ga" "1 \<le> ?N"
    by linarith
  then show ?thesis
  proof cases
    case none
    with res have eq: "ga' = ga\<lparr>populations := []\<rparr>"
      by (simp add: produce_next_generation_empty)
    then have "heap_within ga' = heap_within ga"
      by (simp add: heap_within_def within_boundary_def)
    then show ?thesis using none by (simp add: eq well_formed_def)
  next
    case nosig
    with res wf show ?thesis by (simp add: produce_next_generation_no_signal)
  next
    case one
    with res wf show ?thesis by (simp add: produce_next_generation_single)
  next
    case many
    from produce_next_generation_total[OF wf u many] res show ?thesis by auto
  qed
qed

subsection \<open>The initial population and the reachable states\<close>

lemma uniform_within:
  fixes lo hi r :: real
  assumes "lo \<le> hi" "0 \<le> r" "r < 1"
  shows "lo \<le> lo + (hi - lo) * r \<and> lo + (hi - lo) * r \<le> hi"
proof -
  have "0 \<le> (hi - lo) * r" using assms by simp
  moreover have "(hi - lo) * r \<le> (hi - lo) * 1"
    using assms by (intro mult_left_mono) auto
  ultimately show ?thesis by simp
qed

lemma append_random_chromosome_step:
  "\<exists>ga' g'. append_random_chromosome (ga, g) = (ga', g') \<and>
     ga' = ga\<lparr>heap := heap ga', populations := populations ga'\<rparr> \<and>
     populations ga' = populations ga @ [length (heap ga)] \<and>
     length (heap ga') = Suc (length (heap ga)) \<and>
     (unit_interval g \<longrightarrow> unit_interval g') \<and>
     (ordered_boundaries ga \<and> unit_interval g \<and> heap_within ga \<longrightarrow> heap_within ga')"
proof -
  define c :: Chromosome where "c = \<lparr>
     kp = fst (pid_boundary ga) + (snd (pid_boundary ga) - fst (pid_boundary ga)) * shd g,
     ki = fst (pid_boundary ga) + (snd (pid_boundary ga) - fst (pid_boundary ga)) * shd (stl g),
     kd = fst (pid_boundary ga)
          + (snd (pid_boundary ga) - fst (pid_boundary ga)) * shd (stl (stl g)),
     eta = fst (eta_boundary ga)
          + (snd (eta_boundary ga) - fst (eta_boundary ga)) * shd (stl (stl (stl g)))\<rparr>"
  define ga' where "ga' = ga\<lparr>heap := heap ga @ [c], populations := populations ga @ [length (heap ga)]\<rparr>"
  have res: "append_random_chromosome (ga, g) = (ga', stl (stl (stl (stl g))))"
    by (simp add: append_random_chromosome_def uniform_def new_Chromosome_def Let_def
          ga'_def c_def)
  have u: "unit_interval g \<longrightarrow> unit_interval (stl (stl (stl (stl g))))"
    using unit_interval_stl by blast
  have w: "within_boundary ga c" if "ordered_boundaries ga" "unit_interval g"
  proof -
    from that(2) have "unit_interval (stl g)" "unit_interval (stl (stl g))"
      "unit_interval (stl (stl (stl g)))" using unit_interval_stl by blast+
    with that show ?thesis
      using unit_interval_shd
      by (simp add: within_boundary_def c_def ordered_boundaries_def uniform_within)
  qed
  have "heap_within ga'" if "ordered_boundaries ga" "unit_interval g" "heap_within ga"
    using that w by (simp add: heap_within_def ga'_def within_boundary_def)
  with res u show ?thesis
    by (intro exI[of _ ga'] exI[of _ "stl (stl (stl (stl g)))"]) (simp add: ga'_def)
qed

lemma initial_population_inv:
  assumes "\<forall>r \<in> set (populations ga). r < length (heap ga)"
  shows "\<exists>ga' g'. (append_random_chromosome ^^ n) (ga, g) = (ga', g') \<and>
     ga' = ga\<lparr>heap := heap ga', populations := populations ga'\<rparr> \<and>
     length (populations ga') = length (populations ga) + n \<and>
     (\<forall>r \<in> set (populations ga'). r < length (heap ga')) \<and>
     (unit_interval g \<longrightarrow> unit_interval g') \<and>
     (ordered_boundaries ga \<and> unit_interval g \<and> heap_within ga \<longrightarrow> heap_within ga')"
proof (induction n)
  case 0
  show ?case using assms by simp
next
  case (Suc n)
  then obtain ga1 g1 where
    s1: "(append_random_chromosome ^^ n) (ga, g) = (ga1, g1)"
      "ga1 = ga\<lparr>heap := heap ga1, populations := populations ga1\<rparr>"
      "length (populations ga1) = length (populations ga) + n"
      "\<forall>r \<in> set (populations ga1). r < length (heap ga1)"
      "unit_interval g \<longrightarrow> unit_interval g1"
      "ordered_boundaries ga \<and> unit_interval g \<and> heap_within ga \<longrightarrow> heap_within ga1"
    by blast
  from append_random_chromosome_step[of ga1 g1] obtain ga2 g2 where
    s2: "append_random_chromosome (ga1, g1) = (ga2, g2)"
      "ga2 = ga1\<lparr>heap := heap ga2, populations := populations ga2\<rparr>"
      "populations ga2 = populations ga1 @ [length (heap ga1)]"
      "length (heap ga2) = Suc (length (heap ga1))"
      "unit_interval g1 \<longrightarrow> unit_interval g2"
      "ordered_boundaries ga1 \<and> unit_interval g1 \<and> heap_within ga1 \<longrightarrow> heap_within ga2"
    by blast
  have ob: "ordered_boundaries ga1 = ordered_boundaries ga"
    by (subst s1(2)) (simp add: ordered_boundaries_def)
  have "ga2 = (ga\<lparr>heap := heap ga1, populations := populations ga1\<rparr>)
                \<lparr>heap := heap ga2, populations := populations ga2\<rparr>"
    using s1(2) s2(2) by simp
  then have eq: "ga2 = ga\<lparr>heap := heap ga2, populations := populations ga2\<rparr>" by simp
  have refs: "\<forall>r \<in> set (populations ga2). r < length (heap ga2)"
    using s1(4) s2(3,4) by auto
  have "(append_random_chromosome ^^ Suc n) (ga, g) = (ga2, g2)"
    using s1(1) s2(1) by simp
  moreover have "length (populations ga2) = length (populations ga) + Suc n"
    using s1(3) s2(3) by simp
  moreover have "unit_interval g \<longrightarrow> unit_interval g2" using s1(5) s2(5) by blast
  moreover have "ordered_boundaries ga \<and> unit_interval g \<and> heap_within ga \<longrightarrow> heap_within ga2"
    using s1(5,6) s2(6) ob by blast
  ultimately show ?case using eq refs by blast
qed

lemma GeneticAlgorithm_init_inv:
  assumes "unit_interval g"
  shows "configured config (fst (GeneticAlgorithm_init config g)) \<and>
         well_formed (fst (GeneticAlgorithm_init config g)) \<and>
         (ordered_boundaries (fst (GeneticAlgorithm_init config g))
            \<longrightarrow> heap_within (fst (GeneticAlgorithm_init config g)))"
proof -
  define ga0 where "ga0 = \<lparr>pid_boundary = config_PID_boundary config,
        eta_boundary = config_eta_boundary config,
        population_number = config_population_number config,
        mutation_probability = config_mutation_probability config,
        crossover_rate = config_crossover_rate config,
        control_system_config = config_control_system config,
        populations = [], heap = []\<rparr>"
  have start: "\<forall>r \<in> set (populations (ga0\<lparr>populations := []\<rparr>)).
                 r < length (heap (ga0\<lparr>populations := []\<rparr>))" by simp
  from initial_population_inv[OF start, of "nat (population_number ga0)" g]
  obtain ga' g' where
    r: "(append_random_chromosome ^^ nat (population_number ga0)) (ga0\<lparr>populations := []\<rparr>, g)
        = (ga', g')"
      "ga' = ga0\<lparr>populations := []\<rparr>\<lparr>heap := heap ga', populations := populations ga'\<rparr>"
      "length (populations ga') = length (populations (ga0\<lparr>populations := []\<rparr>))
         + nat (population_number ga0)"
      "\<forall>r \<in> set (populations ga'). r < length (heap ga')"
      "ordered_boundaries (ga0\<lparr>populations := []\<rparr>) \<and> unit_interval g
         \<and> heap_within (ga0\<lparr>populations := []\<rparr>) \<longrightarrow> heap_within ga'"
    by blast
  have fst: "fst (GeneticAlgorithm_init config g) = ga'"
    using r(1) by (simp add: GeneticAlgorithm_init_def generate_initial_population_def ga0_def)
  have eq: "ga' = ga0\<lparr>heap := heap ga', populations := populations ga'\<rparr>"
    using r(2) by simp
  have c: "configured config ga'"
    by (subst eq) (simp add: configured_def ga0_def)
  have pn: "population_number ga' = population_number ga0" by (subst eq) simp
  have wf: "well_formed ga'" using r(3,4) by (simp add: well_formed_def pn)
  have ob: "ordered_boundaries ga' = ordered_boundaries (ga0\<lparr>populations := []\<rparr>)"
    by (subst eq) (simp add: ordered_boundaries_def)
  have "heap_within (ga0\<lparr>populations := []\<rparr>)" by (simp add: heap_within_def ga0_def)
  with r(5) assms ob have "ordered_boundaries ga' \<longrightarrow> heap_within ga'" by blast
  with c wf show ?thesis by (simp add: fst)
qed

lemma reachable_inv:
  assumes "reachable config ga"
  shows "configured config ga \<and> well_formed ga \<and> (ordered_boundaries ga \<longrightarrow> heap_within ga)"
  using assms
proof (induction rule: reachable.induct)
  case (constructed g config)
  then show ?case by (rule GeneticAlgorithm_init_inv)
next
  case (evolved config ga g ga' g')
  from produce_next_generation_returns[OF _ evolved.hyps(2,3)] evolved.IH
  have r: "ga' = ga\<lparr>heap := heap ga', populations := populations ga'\<rparr>" "well_formed ga'"
    "ordered_boundaries ga \<and> heap_within ga \<longrightarrow> heap_within ga'"
    by blast+
  have "configured config ga' = configured config ga"
    by (subst r(1)) (simp add: configured_def)
  moreover have "ordered_boundaries ga' = ordered_boundaries ga"
    by (subst r(1)) (simp add: ordered_boundaries_def)
  ultimately show ?case using r(2,3) evolved.IH by blast
qed

lemma produce_next_generation_parent_reads:
  assumes "reachable config ga" "2 \<le> config_population_number config" "unit_interval g"
  shows "produce_next_generation ga g \<noteq> Inl (IndexError ParentTwo)"
proof -
  from reachable_inv[OF assms(1)] have c: "configured config ga" and wf: "well_formed ga"
    by blast+
  from c assms(2) have pn: "2 \<le> population_number ga" by (simp add: configured_def)
  show ?thesis
  proof (cases "1 \<le> config_period (control_system_config ga)
              * config_slicing_per_period (control_system_config ga)")
    case True
    from produce_next_generation_total[OF wf assms(3) pn True] show ?thesis by auto
  next
    case False
    with produce_next_generation_no_signal[OF wf, of g] pn show ?thesis by auto
  qed
qed

subsection \<open>A generation computed on an example\<close>

lemma example_initial:
  "GeneticAlgorithm_init (example_project 2) (sconst (1 / 2)) =
     (\<lparr>pid_boundary = (0, 10), eta_boundary = (0, 2), population_number = 2,
       mutation_probability = 1, crossover_rate = 0.9,
       control_system_config = scenario_config,
       populations = [0, 1],
       heap = [\<lparr>kp = 5, ki = 5, kd = 5, eta = 1\<rparr>, \<lparr>kp = 5, ki = 5, kd = 5, eta = 1\<rparr>]\<rparr>,
      sconst (1 / 2))"
  by (simp add: GeneticAlgorithm_init_def example_project_def generate_initial_population_def
        numeral_2_eq_2 append_random_chromosome_def uniform_def new_Chromosome_def Let_def)

lemma select_two_half:
  assumes "length fv = 2"
  shows "select fv 2 (sconst (1 / 2)) = Inr (0, sconst (1 / 2))"
  using assms
  by (simp add: select_def randint_def numeral_2_eq_2 select_step_def getitem_def)

lemma example_generation:
  "produce_next_generation (fst (GeneticAlgorithm_init (example_project 2) (sconst (1 / 2))))
     (sconst (1 / 2)) =
   Inr (\<lparr>pid_boundary = (0, 10), eta_boundary = (0, 2), population_number = 2,
       mutation_probability = 1, crossover_rate = 0.9,
       control_system_config = scenario_config,
       populations = [2, 3],
       heap = [\<lparr>kp = 5, ki = 5, kd = 5, eta = 1\<rparr>, \<lparr>kp = 5, ki = 5, kd = 5, eta = 1\<rparr>,
               \<lparr>kp = 5, ki = 5, kd = 5, eta = 1\<rparr>, \<lparr>kp = 5, ki = 5, kd = 5, eta = 1\<rparr>]\<rparr>,
      sconst (1 / 2))"
proof -
  let ?ga = "fst (GeneticAlgorithm_init (example_project 2) (sconst (1 / 2)))"
  have ga: "?ga = \<lparr>pid_boundary = (0, 10), eta_boundary = (0, 2), population_number = 2,
       mutation_probability = 1, crossover_rate = 0.9,
       control_system_config = scenario_config,
       populations = [0, 1],
       heap = [\<lparr>kp = 5, ki = 5, kd = 5, eta = 1\<rparr>, \<lparr>kp = 5, ki = 5, kd = 5, eta = 1\<rparr>]\<rparr>"
    by (simp add: example_initial)
  have "length (populations ?ga) = nat 2" by (simp add: ga)
  moreover have "1 \<le> config_period (control_system_config ?ga)
              * config_slicing_per_period (control_system_config ?ga)"
    by (simp add: ga scenario_config_def)
  ultimately obtain fv where
    fv: "for_each (append_fitness ?ga) (py_range 0 2) [] = Inr fv" "length fv = nat 2"
    using fitness_loop_total[of ?ga 2] by blast
  have sel: "select fv 2 (sconst (1 / 2)) = Inr (0, sconst (1 / 2))"
    using fv(2) by (intro select_two_half) simp
  have r: "py_range 0 2 = [0, 1]" by (simp add: py_range_def upto_rec1)
  show ?thesis
    unfolding produce_next_generation_def
    apply (simp only: ga GeneticAlgorithm.simps)
    apply (simp only: ga[symmetric] fv(1))
    apply (simp add: ga r append_child_def sel getitem_def cross_over_def random_sample_def
        new_Chromosome_def mutation_def uniform_def check_boundary_def Let_def)
    done
qed

text \<open>
  Claim C2. For every configuration with \<open>PID-boundary = [pmin, pmax]\<close> and
  \<open>eta-boundary = [emin, emax]\<close>, \<open>pmin \<le> pmax\<close> and \<open>emin \<le> emax\<close>: every
  chromosome of the population of every reachable state (the initial population
  included) has \<open>kp\<close>, \<open>ki\<close>, \<open>kd\<close> in \<open>[pmin, pmax]\<close> and \<open>eta\<close> in
  \<open>[emin, emax]\<close>. In particular, crossover of two parents inside the boundaries
  returns a child inside the boundaries, and mutation of a chromosome inside the
  boundaries leaves it inside the boundaries.
\<close>

theorem genes_stay_within_boundaries:
  assumes "config_PID_boundary config = (pmin, pmax)"
    and "config_eta_boundary config = (emin, emax)"
    and "pmin \<le> pmax" and "emin \<le> emax"
  shows "(\<forall>ga. reachable config ga \<longrightarrow>
            (\<forall>r \<in> set (populations ga).
               pmin \<le> kp (heap ga ! r) \<and> kp (heap ga ! r) \<le> pmax \<and>
               pmin \<le> ki (heap ga ! r) \<and> ki (heap ga ! r) \<le> pmax \<and>
               pmin \<le> kd (heap ga ! r) \<and> kd (heap ga ! r) \<le> pmax \<and>
               emin \<le> eta (heap ga ! r) \<and> eta (heap ga ! r) \<le> emax)) \<and>
         (\<forall>ga parent_1 parent_2 g.
            pid_boundary ga = (pmin, pmax) \<and> eta_boundary ga = (emin, emax) \<and>
            within_boundary ga (heap ga ! parent_1) \<and>
            within_boundary ga (heap ga ! parent_2) \<longrightarrow>
            (\<exists>child ga' g'. cross_over ga parent_1 parent_2 g = (child, ga', g') \<and>
               within_boundary ga (heap ga' ! child))) \<and>
         (\<forall>ga chromosome g.
            pid_boundary ga = (pmin, pmax) \<and> eta_boundary ga = (emin, emax) \<and>
            chromosome < length (heap ga) \<and>
            within_boundary ga (heap ga ! chromosome) \<longrightarrow>
            (\<exists>ga' g'. mutation ga chromosome g = (chromosome, ga', g') \<and>
               within_boundary ga (heap ga' ! chromosome)))"
proof (intro conjI allI impI)
  fix ga
  assume "reachable config ga"
  from reachable_inv[OF this] have c: "configured config ga" and wf: "well_formed ga"
    and hw: "ordered_boundaries ga \<longrightarrow> heap_within ga" by blast+
  from c assms have b: "pid_boundary ga = (pmin, pmax)" "eta_boundary ga = (emin, emax)"
    by (simp_all add: configured_def)
  with assms(3,4) hw have "\<forall>c \<in> set (heap ga). within_boundary ga c"
    by (simp add: ordered_boundaries_def heap_within_def)
  moreover have "\<forall>r \<in> set (populations ga). heap ga ! r \<in> set (heap ga)"
    using wf by (simp add: well_formed_def)
  ultimately have "\<forall>r \<in> set (populations ga). within_boundary ga (heap ga ! r)" by blast
  then show "\<forall>r \<in> set (populations ga).
               pmin \<le> kp (heap ga ! r) \<and> kp (heap ga ! r) \<le> pmax \<and>
               pmin \<le> ki (heap ga ! r) \<and> ki (heap ga ! r) \<le> pmax \<and>
               pmin \<le> kd (heap ga ! r) \<and> kd (heap ga ! r) \<le> pmax \<and>
               emin \<le> eta (heap ga ! r) \<and> eta (heap ga ! r) \<le> emax"
    by (simp add: within_boundary_def b)
next
  fix ga parent_1 parent_2 g
  assume a: "pid_boundary ga = (pmin, pmax) \<and> eta_boundary ga = (emin, emax) \<and>
            within_boundary ga (heap ga ! parent_1) \<and>
            within_boundary ga (heap ga ! parent_2)"
  show "\<exists>child ga' g'. cross_over ga parent_1 parent_2 g = (child, ga', g') \<and>
               within_boundary ga (heap ga' ! child)"
  proof (cases "shd g > crossover_rate ga")
    case True
    then show ?thesis using a by (simp add: cross_over_skipped)
  next
    case False
    from a have w: "within_boundary ga (heap ga ! parent_1)"
      "within_boundary ga (heap ga ! parent_2)" by simp_all
    show ?thesis using w unfolding cross_over_performed[OF False] Let_def
      by (simp add: within_boundary_def)
  qed
next
  fix ga chromosome g
  assume a: "pid_boundary ga = (pmin, pmax) \<and> eta_boundary ga = (emin, emax) \<and>
            chromosome < length (heap ga) \<and>
            within_boundary ga (heap ga ! chromosome)"
  with assms(3,4) have ob: "ordered_boundaries ga" by (simp add: ordered_boundaries_def)
  from mutation_result[of ga chromosome g] obtain v g' where
    m: "mutation ga chromosome g = (chromosome, ga\<lparr>heap := (heap ga)[chromosome := v]\<rparr>, g')"
      "ordered_boundaries ga \<and> within_boundary ga (heap ga ! chromosome)
         \<longrightarrow> within_boundary ga v" by blast
  with a ob show "\<exists>ga' g'. mutation ga chromosome g = (chromosome, ga', g') \<and>
               within_boundary ga (heap ga' ! chromosome)"
    by simp
qed

theorem genes_stay_within_boundaries_witness:
  "config_PID_boundary (example_project 2) = (0, 10) \<and>
   config_eta_boundary (example_project 2) = (0, 2) \<and>
   (0 :: real) \<le> 10 \<and> (0 :: real) \<le> 2 \<and>
   unit_interval (sconst (1 / 2)) \<and>
   reachable (example_project 2) (fst (GeneticAlgorithm_init (example_project 2) (sconst (1 / 2)))) \<and>
   0 \<in> set (populations (fst (GeneticAlgorithm_init (example_project 2) (sconst (1 / 2))))) \<and>
   0 \<le> kp (heap (fst (GeneticAlgorithm_init (example_project 2) (sconst (1 / 2)))) ! 0) \<and>
   kp (heap (fst (GeneticAlgorithm_init (example_project 2) (sconst (1 / 2)))) ! 0) \<le> 10 \<and>
   0 \<le> eta (heap (fst (GeneticAlgorithm_init (example_project 2) (sconst (1 / 2)))) ! 0) \<and>
   eta (heap (fst (GeneticAlgorithm_init (example_project 2) (sconst (1 / 2)))) ! 0) \<le> 2"
proof -
  have b: "config_PID_boundary (example_project 2) = (0, 10)"
    "config_eta_boundary (example_project 2) = (0, 2)"
    by (simp_all add: example_project_def)
  have u: "unit_interval (sconst (1 / 2))" by (simp add: unit_interval_sconst)
  have r: "reachable (example_project 2)
             (fst (GeneticAlgorithm_init (example_project 2) (sconst (1 / 2))))"
    using u by (rule reachable.constructed)
  have m: "0 \<in> set (populations (fst (GeneticAlgorithm_init (example_project 2) (sconst (1 / 2)))))"
    by (simp add: example_initial)
  have o: "(0 :: real) \<le> 10" "(0 :: real) \<le> 2" by simp_all
  from genes_stay_within_boundaries[OF b o] r m
  have "0 \<le> kp (heap (fst (GeneticAlgorithm_init (example_project 2) (sconst (1 / 2)))) ! 0) \<and>
   kp (heap (fst (GeneticAlgorithm_init (example_project 2) (sconst (1 / 2)))) ! 0) \<le> 10 \<and>
   0 \<le> eta (heap (fst (GeneticAlgorithm_init (example_project 2) (sconst (1 / 2)))) ! 0) \<and>
   eta (heap (fst (GeneticAlgorithm_init (example_project 2) (sconst (1 / 2)))) ! 0) \<le> 2"
    by fastforce
  with b u r m show ?thesis by simp
qed

text \<open>
  With a population of no chromosome, or of at least two chromosomes when the simulator
  can be constructed (\<open>period * slicing_per_period \<ge> 1\<close>), the call completes in every
  reachable state and for every outcome of the random draws, and the new population has
  the size \<open>population_number\<close>.
\<close>

lemma produce_next_generation_completes:
  assumes "reachable config ga" and "unit_interval g"
    and "config_population_number config = 0 \<or>
         2 \<le> config_population_number config \<and>
         1 \<le> config_period (config_control_system config)
              * config_slicing_per_period (config_control_system config)"
  shows "\<exists>ga' g'. produce_next_generation ga g = Inr (ga', g') \<and>
           int (length (populations ga')) = config_population_number config \<and>
           population_number ga' = config_population_number config \<and>
           reachable config ga'"
proof -
  from reachable_inv[OF assms(1)] have c: "configured config ga" and wf: "well_formed ga"
    by blast+
  from c have pn: "population_number ga = config_population_number config"
    and cs: "control_system_config ga = config_control_system config"
    by (simp_all add: configured_def)
  have "\<exists>ga' g'. produce_next_generation ga g = Inr (ga', g')"
  proof (cases "config_population_number config = 0")
    case True
    then show ?thesis using pn by (simp add: produce_next_generation_empty)
  next
    case False
    with assms(3) have "2 \<le> population_number ga"
      "1 \<le> config_period (control_system_config ga)
              * config_slicing_per_period (control_system_config ga)"
      by (simp_all add: pn cs)
    from produce_next_generation_total[OF wf assms(2) this] show ?thesis by blast
  qed
  then obtain ga' g' where res: "produce_next_generation ga g = Inr (ga', g')" by blast
  have r': "reachable config ga'" using assms(1,2) res by (rule reachable.evolved)
  from reachable_inv[OF r'] have "configured config ga'" "well_formed ga'" by blast+
  then have "population_number ga' = config_population_number config"
    "length (populations ga') = nat (config_population_number config)"
    by (simp_all add: configured_def well_formed_def)
  moreover have "0 \<le> config_population_number config" using assms(3) by auto
  ultimately show ?thesis using res r' by auto
qed

lemma produce_next_generation_completes_example:
  "reachable (example_project 2) (fst (GeneticAlgorithm_init (example_project 2) (sconst (1 / 2)))) \<and>
   unit_interval (sconst (1 / 2)) \<and>
   2 \<le> config_population_number (example_project 2) \<and>
   1 \<le> config_period (config_control_system (example_project 2))
        * config_slicing_per_period (config_control_system (example_project 2)) \<and>
   (\<exists>ga' g'. produce_next_generation
        (fst (GeneticAlgorithm_init (example_project 2) (sconst (1 / 2)))) (sconst (1 / 2))
        = Inr (ga', g') \<and>
      length (populations ga') = 2 \<and> population_number ga' = 2) \<and>
   populations (fst (projr (produce_next_generation
        (fst (GeneticAlgorithm_init (example_project 2) (sconst (1 / 2)))) (sconst (1 / 2)))))
     = [2, 3]"
proof -
  have e: "populations (fst (projr (produce_next_generation
        (fst (GeneticAlgorithm_init (example_project 2) (sconst (1 / 2)))) (sconst (1 / 2)))))
     = [2, 3]"
    by (simp add: example_generation)
  have u: "unit_interval (sconst (1 / 2))" by (simp add: unit_interval_sconst)
  have r: "reachable (example_project 2)
             (fst (GeneticAlgorithm_init (example_project 2) (sconst (1 / 2))))"
    using u by (rule reachable.constructed)
  have c: "2 \<le> config_population_number (example_project 2)"
    "1 \<le> config_period (config_control_system (example_project 2))
        * config_slicing_per_period (config_control_system (example_project 2))"
    by (simp_all add: example_project_def scenario_config_def)
  then have d: "config_population_number (example_project 2) = 0 \<or>
         2 \<le> config_population_number (example_project 2) \<and>
         1 \<le> config_period (config_control_system (example_project 2))
              * config_slicing_per_period (config_control_system (example_project 2))"
    by blast
  have n: "config_population_number (example_project 2) = 2"
    by (simp add: example_project_def)
  from produce_next_generation_completes[OF r u d] show ?thesis
    using r u c e unfolding n by auto
qed

lemma example_single_reachable:
  "unit_interval (sconst (1 / 2)) \<and>
   reachable (example_project 1)
     (fst (GeneticAlgorithm_init (example_project 1) (sconst (1 / 2)))) \<and>
   populations (fst (GeneticAlgorithm_init (example_project 1) (sconst (1 / 2)))) = [0]"
proof -
  have u: "unit_interval (sconst (1 / 2))" by (simp add: unit_interval_sconst)
  then have "reachable (example_project 1)
             (fst (GeneticAlgorithm_init (example_project 1) (sconst (1 / 2))))"
    by (rule reachable.constructed)
  moreover have
    "populations (fst (GeneticAlgorithm_init (example_project 1) (sconst (1 / 2)))) = [0]"
    by (simp add: GeneticAlgorithm_init_def example_project_def
          generate_initial_population_def append_random_chromosome_def uniform_def
          new_Chromosome_def Let_def)
  ultimately show ?thesis using u by simp
qed

text \<open>
  Claim C5. For every reachable state and every pseudo-random sequence,
  \<open>produce_next_generation\<close> completes and replaces the whole population with a new
  population of size \<open>population_number\<close>. The code does not meet this with
  \<open>population_number = 1\<close>: in the freshly constructed object of such a configuration,
  a reachable state, the tournament of the first child draws \<open>randint(0, 0)\<close>, which
  raises ValueError for every state of the random source, so the call does not complete
  and the population is not replaced.
\<close>

theorem produce_next_generation_single_failure:
  "produce_next_generation
     (fst (GeneticAlgorithm_init (example_project 1) (sconst (1 / 2)))) g
     = Inl (ValueError Randint)"
proof -
  from example_single_reachable have r: "reachable (example_project 1)
             (fst (GeneticAlgorithm_init (example_project 1) (sconst (1 / 2))))"
    by simp
  from reachable_inv[OF r] have
    "configured (example_project 1) (fst (GeneticAlgorithm_init (example_project 1) (sconst (1 / 2))))"
    and wf: "well_formed (fst (GeneticAlgorithm_init (example_project 1) (sconst (1 / 2))))"
    by blast+
  then have
    "population_number (fst (GeneticAlgorithm_init (example_project 1) (sconst (1 / 2)))) = 1"
    "1 \<le> config_period (control_system_config
               (fst (GeneticAlgorithm_init (example_project 1) (sconst (1 / 2)))))
          * config_slicing_per_period (control_system_config
               (fst (GeneticAlgorithm_init (example_project 1) (sconst (1 / 2)))))"
    by (simp_all add: configured_def example_project_def scenario_config_def)
  from produce_next_generation_single[OF wf this] show ?thesis by simp
qed

text \<open>
  Claim C9. For an algorithm object with \<open>population_number = 1\<close>,
  \<open>produce_next_generation\<close> does not index out of range when reading
  \<open>populations[parent_index + 1]\<close>: the call never reaches that read. It raises before,
  in the simulator when the input signal cannot be built (\<open>N\<close> negative or 0), and
  otherwise in the tournament, whose draw \<open>randint(0, 0)\<close> raises ValueError.
\<close>

theorem single_population_no_parent_read:
  assumes "reachable config ga" and "config_population_number config = 1"
    and "N = config_period (config_control_system config)
             * config_slicing_per_period (config_control_system config)"
  shows "produce_next_generation ga g =
           Inl (if N < 0 then ValueError Linspace
                else if N = 0 then IndexError InputSignal
                else ValueError Randint) \<and>
         produce_next_generation ga g \<noteq> Inl (IndexError ParentTwo)"
proof -
  from reachable_inv[OF assms(1)] have c: "configured config ga" and wf: "well_formed ga"
    by blast+
  from c assms(2) have pn: "population_number ga = 1"
    and cs: "control_system_config ga = config_control_system config"
    by (simp_all add: configured_def)
  show ?thesis
  proof (cases "1 \<le> N")
    case True
    then have "1 \<le> config_period (control_system_config ga)
                  * config_slicing_per_period (control_system_config ga)"
      by (simp add: cs assms(3))
    from produce_next_generation_single[OF wf pn this, of g] True show ?thesis
      by simp
  next
    case False
    then have le: "config_period (control_system_config ga)
                  * config_slicing_per_period (control_system_config ga) \<le> 0"
      by (simp add: cs assms(3))
    have "produce_next_generation ga g =
            Inl (if N < 0 then ValueError Linspace else IndexError InputSignal)"
      using produce_next_generation_no_signal[OF wf _ le, of g] pn
      by (simp add: cs assms(3)[symmetric])
    moreover have "N < 0 \<or> N = 0" using False by linarith
    ultimately show ?thesis by auto
  qed
qed

theorem single_population_no_parent_read_witness:
  "reachable (example_project 1) (fst (GeneticAlgorithm_init (example_project 1) (sconst (1 / 2)))) \<and>
   config_population_number (example_project 1) = 1 \<and>
   (4 :: int) = config_period (config_control_system (example_project 1))
        * config_slicing_per_period (config_control_system (example_project 1)) \<and>
   produce_next_generation
     (fst (GeneticAlgorithm_init (example_project 1) (sconst (1 / 2)))) (sconst 0)
     = Inl (ValueError Randint) \<and>
   produce_next_generation
     (fst (GeneticAlgorithm_init (example_project 1) (sconst (1 / 2)))) (sconst 0)
     \<noteq> Inl (IndexError ParentTwo)"
proof -
  have u: "unit_interval (sconst (1 / 2))" by (simp add: unit_interval_sconst)
  have r: "reachable (example_project 1)
             (fst (GeneticAlgorithm_init (example_project 1) (sconst (1 / 2))))"
    using u by (rule reachable.constructed)
  have p: "config_population_number (example_project 1) = 1"
    by (simp add: example_project_def)
  have n: "(4 :: int) = config_period (config_control_system (example_project 1))
        * config_slicing_per_period (config_control_system (example_project 1))"
    by (simp add: example_project_def scenario_config_def)
  from single_population_no_parent_read[OF r p n, of "sconst 0"] r show ?thesis
    by (simp add: example_project_def scenario_config_def)
qed

text \<open>
  Claim C10. For every fitness list of length \<open>n \<ge> 2\<close> and every outcome of the random
  draws, \<open>__select\<close> returns an index between 0 and \<open>n - 2\<close>, so never the last
  index, and reading position \<open>parent_index + 1\<close> of a list of length \<open>n\<close> is within
  bounds; in every reachable state with \<open>population_number \<ge> 2\<close> the read of
  \<open>populations[parent_index + 1]\<close> in \<open>produce_next_generation\<close> never raises.
\<close>

theorem select_never_last:
  assumes "2 \<le> length fitness_values" and "unit_interval g"
  shows "(\<exists>parent_index g'. select fitness_values k g = Inr (parent_index, g') \<and>
            0 \<le> parent_index \<and> parent_index \<le> int (length fitness_values) - 2 \<and>
            (\<forall>pops :: nat list. length pops = length fitness_values \<longrightarrow>
               getitem pops (parent_index + 1) ParentTwo
                 = Inr (pops ! nat (parent_index + 1)))) \<and>
         (\<forall>config ga. reachable config ga \<and> 2 \<le> config_population_number config \<longrightarrow>
            produce_next_generation ga g \<noteq> Inl (IndexError ParentTwo))"
proof -
  from select_result[OF assms, of k] obtain b ds g2 pre w post where
    r: "select fitness_values k g = Inr (w, g2)" "b # ds = pre @ w # post"
      "\<forall>j \<in> set (b # ds). 0 \<le> j \<and> j < int (length fitness_values) - 1"
    by blast
  have "w \<in> set (b # ds)" by (simp only: r(2)) simp
  with r(3) have w: "0 \<le> w" "w < int (length fitness_values) - 1" by blast+
  then have "\<forall>pops :: nat list. length pops = length fitness_values \<longrightarrow>
        getitem pops (w + 1) ParentTwo = Inr (pops ! nat (w + 1))"
    by (simp add: getitem_in_range)
  with r(1) w have "\<exists>parent_index g'. select fitness_values k g = Inr (parent_index, g') \<and>
            0 \<le> parent_index \<and> parent_index \<le> int (length fitness_values) - 2 \<and>
            (\<forall>pops :: nat list. length pops = length fitness_values \<longrightarrow>
               getitem pops (parent_index + 1) ParentTwo
                 = Inr (pops ! nat (parent_index + 1)))"
    by fastforce
  moreover have "\<forall>config ga. reachable config ga \<and> 2 \<le> config_population_number config \<longrightarrow>
            produce_next_generation ga g \<noteq> Inl (IndexError ParentTwo)"
    using produce_next_generation_parent_reads assms(2) by blast
  ultimately show ?thesis by blast
qed

theorem select_never_last_witness:
  "2 \<le> length [4, 2, 7 :: real] \<and>
   unit_interval (0.7 ## 0.2 ## 0.9 ## sconst 0) \<and>
   select [4, 2, 7] 2 (0.7 ## 0.2 ## 0.9 ## sconst 0) = Inr (1, sconst 0) \<and>
   (1 :: int) \<le> int (length [4, 2, 7 :: real]) - 2 \<and>
   getitem [10, 11, 12 :: nat] (1 + 1) ParentTwo = Inr 12 \<and>
   reachable (example_project 2)
     (fst (GeneticAlgorithm_init (example_project 2) (sconst (1 / 2)))) \<and>
   2 \<le> config_population_number (example_project 2) \<and>
   produce_next_generation (fst (GeneticAlgorithm_init (example_project 2) (sconst (1 / 2))))
     (0.7 ## 0.2 ## 0.9 ## sconst 0) \<noteq> Inl (IndexError ParentTwo)"
proof -
  have l: "2 \<le> length [4, 2, 7 :: real]" by simp
  have u: "unit_interval (0.7 ## 0.2 ## 0.9 ## sconst 0)"
    by (simp add: unit_interval_SCons unit_interval_sconst)
  have e: "select [4, 2, 7] 2 (0.7 ## 0.2 ## 0.9 ## sconst 0) = Inr (1, sconst 0)"
    by (simp add: select_def randint_def numeral_2_eq_2 select_step_def getitem_def)
  have i: "getitem [10, 11, 12 :: nat] (1 + 1) ParentTwo = Inr 12"
    by (simp add: getitem_def)
  have "unit_interval (sconst (1 / 2))" by (simp add: unit_interval_sconst)
  then have r: "reachable (example_project 2)
             (fst (GeneticAlgorithm_init (example_project 2) (sconst (1 / 2))))"
    by (rule reachable.constructed)
  have p: "2 \<le> config_population_number (example_project 2)"
    by (simp add: example_project_def)
  from select_never_last[OF l u, of 2] r p
  have "produce_next_generation (fst (GeneticAlgorithm_init (example_project 2) (sconst (1 / 2))))
     (0.7 ## 0.2 ## 0.9 ## sconst 0) \<noteq> Inl (IndexError ParentTwo)"
    by blast
  with l u e i r p show ?thesis by simp
qed

end
